theory Spec2Isabelle
  imports Complex_Main
begin

section \<open>The persistence boundary\<close>

text \<open>
  The three tables of the migration (\<^verbatim>\<open>CREATE TABLE "Restaurant"\<close>,
  \<^verbatim>\<open>"DinnerGroup"\<close>, \<^verbatim>\<open>"Attendee"\<close>) are lists of rows in insertion order, and
  \<^verbatim>\<open>findFirst\<close> without an \<^verbatim>\<open>orderBy\<close> answers the first row that matches.
  Restaurant and user keys are the strings the place provider and the authentication
  layer supply. The keys the database client generates for DinnerGroup and Attendee
  rows are drawn from a counter kept in the state, so every generated key is new.
  The User table is written by the authentication layer only; the state holds its keys,
  which the foreign key of an attendee row refers to, and no function here changes
  them. The \<^verbatim>\<open>createdAt\<close> and \<^verbatim>\<open>updatedAt\<close> columns are not read by any function
  modelled here and are left out. \<open>restaurantData\<close> is a Restaurant row without its
  key, the argument type of \<^verbatim>\<open>createRestaurant\<close>.
\<close>

type_synonym user_key = string
type_synonym restaurant_key = string
type_synonym generated_key = nat

record restaurantData =
  name :: string
  address :: string
  cuisineType :: string
  priceLevel :: int
  rating :: real
  lat :: real
  lng :: real
  photoUrl :: "string option"
  mapsUrl :: "string option"
  websiteUrl :: "string option"

record restaurant = restaurantData +
  restaurant_id :: restaurant_key

record dinnerGroup =
  group_id :: generated_key
  restaurantId :: restaurant_key
  group_notes :: "string option"

record attendee =
  attendee_id :: generated_key
  userId :: user_key
  dinnerGroupId :: generated_key

record db =
  users :: "user_key list"
  restaurants :: "restaurant list"
  dinnerGroups :: "dinnerGroup list"
  attendees :: "attendee list"
  nextId :: nat

text \<open>
  What a database call can throw: a foreign key that points nowhere, a breach of
  \<^verbatim>\<open>Attendee_userId_dinnerGroupId_key\<close>, and a \<^verbatim>\<open>delete\<close> or \<^verbatim>\<open>update\<close> whose
  \<^verbatim>\<open>where\<close> matches no row. A call that throws leaves the tables as they were; the
  writes made before it in the same request stay, since no function here opens a
  transaction.
\<close>

datatype error = ForeignKeyViolation | UniqueViolation | RecordNotFound

type_synonym 'a result = "(error + 'a) \<times> db"

subsection \<open>The database client's calls\<close>

definition attendee_findFirst :: "user_key \<Rightarrow> db \<Rightarrow> attendee option" where
  "attendee_findFirst u s = find (\<lambda>a. userId a = u) (attendees s)"

definition attendee_delete :: "generated_key \<Rightarrow> db \<Rightarrow> attendee result" where
  "attendee_delete i s =
     (case find (\<lambda>a. attendee_id a = i) (attendees s) of
        None \<Rightarrow> (Inl RecordNotFound, s)
      | Some a \<Rightarrow> (Inr a, s\<lparr>attendees := filter (\<lambda>b. attendee_id b \<noteq> i) (attendees s)\<rparr>))"

definition attendee_create :: "user_key \<Rightarrow> generated_key \<Rightarrow> db \<Rightarrow> attendee result" where
  "attendee_create u g s =
     (if u \<notin> set (users s) \<or> g \<notin> set (map group_id (dinnerGroups s))
      then (Inl ForeignKeyViolation, s)
      else if list_ex (\<lambda>a. userId a = u \<and> dinnerGroupId a = g) (attendees s)
      then (Inl UniqueViolation, s)
      else let a = \<lparr>attendee_id = nextId s, userId = u, dinnerGroupId = g\<rparr>
           in (Inr a, s\<lparr>attendees := attendees s @ [a], nextId := Suc (nextId s)\<rparr>))"

definition attendee_update :: "generated_key \<Rightarrow> generated_key \<Rightarrow> db \<Rightarrow> attendee result" where
  "attendee_update i g s =
     (case find (\<lambda>a. attendee_id a = i) (attendees s) of
        None \<Rightarrow> (Inl RecordNotFound, s)
      | Some a \<Rightarrow>
          if g \<notin> set (map group_id (dinnerGroups s)) then (Inl ForeignKeyViolation, s)
          else if list_ex (\<lambda>b. attendee_id b \<noteq> i \<and> userId b = userId a \<and> dinnerGroupId b = g)
                    (attendees s)
          then (Inl UniqueViolation, s)
          else (Inr (a\<lparr>dinnerGroupId := g\<rparr>),
                s\<lparr>attendees :=
                    map (\<lambda>b. if attendee_id b = i then b\<lparr>dinnerGroupId := g\<rparr> else b)
                      (attendees s)\<rparr>))"

definition attendee_deleteMany :: "user_key \<Rightarrow> db \<Rightarrow> nat \<times> db" where
  "attendee_deleteMany u s =
     (length (filter (\<lambda>a. userId a = u) (attendees s)),
      s\<lparr>attendees := filter (\<lambda>a. userId a \<noteq> u) (attendees s)\<rparr>)"

definition dinnerGroup_findFirst :: "restaurant_key \<Rightarrow> db \<Rightarrow> dinnerGroup option" where
  "dinnerGroup_findFirst r s = find (\<lambda>g. restaurantId g = r) (dinnerGroups s)"

definition dinnerGroup_create :: "restaurant_key \<Rightarrow> string option \<Rightarrow> db \<Rightarrow> dinnerGroup result" where
  "dinnerGroup_create r n s =
     (if r \<notin> set (map restaurant_id (restaurants s)) then (Inl ForeignKeyViolation, s)
      else let g = \<lparr>group_id = nextId s, restaurantId = r, group_notes = n\<rparr>
           in (Inr g, s\<lparr>dinnerGroups := dinnerGroups s @ [g], nextId := Suc (nextId s)\<rparr>))"

definition dinnerGroup_update :: "generated_key \<Rightarrow> string option \<Rightarrow> db \<Rightarrow> dinnerGroup result" where
  "dinnerGroup_update i n s =
     (case find (\<lambda>g. group_id g = i) (dinnerGroups s) of
        None \<Rightarrow> (Inl RecordNotFound, s)
      | Some g \<Rightarrow>
          (case n of
             None \<Rightarrow> (Inr g, s)
           | Some txt \<Rightarrow>
               (Inr (g\<lparr>group_notes := Some txt\<rparr>),
                s\<lparr>dinnerGroups :=
                    map (\<lambda>h. if group_id h = i then h\<lparr>group_notes := Some txt\<rparr> else h)
                      (dinnerGroups s)\<rparr>)))"

text \<open>\<^verbatim>\<open>ON DELETE CASCADE\<close>: deleting a group deletes its attendee rows.\<close>

definition dinnerGroup_delete :: "generated_key \<Rightarrow> db \<Rightarrow> dinnerGroup result" where
  "dinnerGroup_delete i s =
     (case find (\<lambda>g. group_id g = i) (dinnerGroups s) of
        None \<Rightarrow> (Inl RecordNotFound, s)
      | Some g \<Rightarrow>
          (Inr g,
           s\<lparr>dinnerGroups := filter (\<lambda>h. group_id h \<noteq> i) (dinnerGroups s),
             attendees := filter (\<lambda>a. dinnerGroupId a \<noteq> i) (attendees s)\<rparr>))"

definition attendee_count :: "generated_key \<Rightarrow> db \<Rightarrow> nat" where
  "attendee_count g s = length (filter (\<lambda>a. dinnerGroupId a = g) (attendees s))"

text \<open>
  \<^verbatim>\<open>prisma.restaurant.upsert({ where: { id }, update, create })\<close>: the row with this
  key is rewritten when there is one and appended otherwise.
\<close>

definition restaurant_upsert :: "restaurant \<Rightarrow> db \<Rightarrow> db" where
  "restaurant_upsert r s =
     (if restaurant_id r \<in> set (map restaurant_id (restaurants s))
      then s\<lparr>restaurants :=
               map (\<lambda>q. if restaurant_id q = restaurant_id r then r else q) (restaurants s)\<rparr>
      else s\<lparr>restaurants := restaurants s @ [r]\<rparr>)"

text \<open>Deleting a restaurant cascades to its groups and to their attendee rows.\<close>

definition restaurant_delete :: "restaurant_key \<Rightarrow> db \<Rightarrow> restaurant result" where
  "restaurant_delete r s =
     (case find (\<lambda>q. restaurant_id q = r) (restaurants s) of
        None \<Rightarrow> (Inl RecordNotFound, s)
      | Some q \<Rightarrow>
          (Inr q,
           s\<lparr>restaurants := filter (\<lambda>p. restaurant_id p \<noteq> r) (restaurants s),
             dinnerGroups := filter (\<lambda>g. restaurantId g \<noteq> r) (dinnerGroups s),
             attendees :=
               filter
                 (\<lambda>a. dinnerGroupId a \<notin>
                    set (map group_id (filter (\<lambda>g. restaurantId g = r) (dinnerGroups s))))
                 (attendees s)\<rparr>))"

text \<open>
  \<^verbatim>\<open>prisma.restaurant.create\<close> lets the client generate the key. The model renders
  the counter in decimal behind the letter \<open>c\<close>; a key already in the table is a
  breach of the primary key.
\<close>

definition digit :: "nat \<Rightarrow> char" where
  "digit d = ''0123456789'' ! d"

fun decimal :: "nat \<Rightarrow> string" where
  "decimal n = (if 10 \<le> n then decimal (n div 10) @ [digit (n mod 10)] else [digit n])"

declare decimal.simps [simp del]

definition restaurant_create :: "restaurantData \<Rightarrow> db \<Rightarrow> restaurant result" where
  "restaurant_create d s =
     (let k = CHR ''c'' # decimal (nextId s)
      in if k \<in> set (map restaurant_id (restaurants s)) then (Inl UniqueViolation, s)
         else let r = restaurantData.extend d (restaurant.fields k)
              in (Inr r, s\<lparr>restaurants := restaurants s @ [r], nextId := Suc (nextId s)\<rparr>))"

section \<open>The reusable queries of \<^verbatim>\<open>restaurants.server.ts\<close>\<close>

text \<open>
  Each query is one call of the database client, or a lookup followed by a write. The
  model returns the row read or written; the related rows a query attaches with
  \<^verbatim>\<open>include\<close> are modelled where a property reads them, in
  \<^verbatim>\<open>getCurrentDinnerGroup\<close>.
\<close>

definition createRestaurant :: "restaurantData \<Rightarrow> db \<Rightarrow> restaurant result" where
  "createRestaurant d s = restaurant_create d s"

definition deleteRestaurant :: "restaurant_key \<Rightarrow> db \<Rightarrow> restaurant result" where
  "deleteRestaurant r s = restaurant_delete r s"

definition createDinnerGroup :: "restaurant_key \<Rightarrow> string option \<Rightarrow> db \<Rightarrow> dinnerGroup result" where
  "createDinnerGroup r n s = dinnerGroup_create r n s"

definition updateDinnerGroup :: "generated_key \<Rightarrow> string option \<Rightarrow> db \<Rightarrow> dinnerGroup result" where
  "updateDinnerGroup i n s = dinnerGroup_update i n s"

definition deleteDinnerGroup :: "generated_key \<Rightarrow> db \<Rightarrow> dinnerGroup result" where
  "deleteDinnerGroup i s = dinnerGroup_delete i s"

text \<open>
  \<^verbatim>\<open>getCurrentDinnerGroup\<close> returns the first attendee row of the user with its group,
  the group's restaurant and the group's roster (the \<^verbatim>\<open>include\<close>), or \<^verbatim>\<open>null\<close> when
  the user has no row. The foreign keys make the two inner lookups succeed on every
  state the database can hold; the model answers \<open>None\<close> on the others.
\<close>

record currentDinnerGroup =
  cur_attendee :: attendee
  cur_dinnerGroup :: dinnerGroup
  cur_restaurant :: restaurant
  cur_attendees :: "attendee list"

definition getCurrentDinnerGroup :: "user_key \<Rightarrow> db \<Rightarrow> currentDinnerGroup option" where
  "getCurrentDinnerGroup u s =
     (case attendee_findFirst u s of
        None \<Rightarrow> None
      | Some a \<Rightarrow>
          (case find (\<lambda>g. group_id g = dinnerGroupId a) (dinnerGroups s) of
             None \<Rightarrow> None
           | Some g \<Rightarrow>
               (case find (\<lambda>q. restaurant_id q = restaurantId g) (restaurants s) of
                  None \<Rightarrow> None
                | Some q \<Rightarrow>
                    Some \<lparr>cur_attendee = a, cur_dinnerGroup = g, cur_restaurant = q,
                          cur_attendees =
                            filter (\<lambda>b. dinnerGroupId b = group_id g) (attendees s)\<rparr>)))"

definition joinDinnerGroup :: "user_key \<Rightarrow> generated_key \<Rightarrow> db \<Rightarrow> attendee result" where
  "joinDinnerGroup u g s =
     (case attendee_findFirst u s of
        None \<Rightarrow> attendee_create u g s
      | Some existingAttendee \<Rightarrow>
          (case attendee_delete (attendee_id existingAttendee) s of
             (Inl e, s') \<Rightarrow> (Inl e, s')
           | (Inr _, s') \<Rightarrow> attendee_create u g s'))"

definition leaveDinnerGroup :: "user_key \<Rightarrow> db \<Rightarrow> attendee option result" where
  "leaveDinnerGroup u s =
     (case attendee_findFirst u s of
        None \<Rightarrow> (Inr None, s)
      | Some a \<Rightarrow>
          (case attendee_delete (attendee_id a) s of
             (Inl e, s') \<Rightarrow> (Inl e, s')
           | (Inr d, s') \<Rightarrow> (Inr (Some d), s')))"

definition getAttendeesCount :: "generated_key \<Rightarrow> db \<Rightarrow> nat" where
  "getAttendeesCount g s = attendee_count g s"

section \<open>The attendee resource route\<close>

text \<open>
  The \<^verbatim>\<open>action\<close> of the attendee route dispatches on the form's \<^verbatim>\<open>action\<close> field.
  \<^verbatim>\<open>leave\<close> answers \<^verbatim>\<open>{ success: !!result }\<close>. Whatever is thrown inside is caught
  and thrown again as a response with status 500; an unknown action is the response
  with status 400 thrown inside the same \<^verbatim>\<open>try\<close>, so it leaves as status 500 too.
\<close>

datatype attendee_form = Join generated_key | Leave | OtherAction

datatype attendee_answer = JoinAnswer attendee | LeaveAnswer bool

datatype http_failure = Status nat

definition attendee_action ::
  "user_key \<Rightarrow> attendee_form \<Rightarrow> db \<Rightarrow> (http_failure + attendee_answer) \<times> db" where
  "attendee_action u f s =
     (case f of
        Join g \<Rightarrow>
          (case joinDinnerGroup u g s of
             (Inl e, s') \<Rightarrow> (Inl (Status 500), s')
           | (Inr a, s') \<Rightarrow> (Inr (JoinAnswer a), s'))
      | Leave \<Rightarrow>
          (case leaveDinnerGroup u s of
             (Inl e, s') \<Rightarrow> (Inl (Status 500), s')
           | (Inr r, s') \<Rightarrow> (Inr (LeaveAnswer (r \<noteq> None)), s'))
      | OtherAction \<Rightarrow> (Inl (Status 500), s))"

section \<open>The dashboard route\<close>

text \<open>
  The dashboard's \<^verbatim>\<open>action\<close> reads \<^verbatim>\<open>intent\<close> and \<^verbatim>\<open>restaurantId\<close> from the form.
  A missing or empty \<^verbatim>\<open>restaurantId\<close> is answered with an error object. For
  \<^verbatim>\<open>join-dinner\<close> the group of the restaurant is looked up and created when there is
  none, then the user's attendee row is pointed at it (\<^verbatim>\<open>update\<close>) or created;
  the two halves of the branch are named here.
  \<^verbatim>\<open>leave-dinner\<close> is one \<^verbatim>\<open>deleteMany\<close>. A database error is not caught here: it
  is the \<open>Inl\<close> of the result.
\<close>

datatype dashboard_answer = Success | ErrorMessage string

definition dashboard_findOrCreateGroup :: "restaurant_key \<Rightarrow> db \<Rightarrow> dinnerGroup result" where
  "dashboard_findOrCreateGroup r s =
     (case dinnerGroup_findFirst r s of
        Some existingGroup \<Rightarrow> (Inr existingGroup, s)
      | None \<Rightarrow> dinnerGroup_create r (Some []) s)"

definition dashboard_updateOrCreateAttendee :: "user_key \<Rightarrow> generated_key \<Rightarrow> db \<Rightarrow> attendee result" where
  "dashboard_updateOrCreateAttendee u g s =
     (case attendee_findFirst u s of
        Some existingAttendee \<Rightarrow> attendee_update (attendee_id existingAttendee) g s
      | None \<Rightarrow> attendee_create u g s)"

definition dashboard_action ::
  "user_key \<Rightarrow> string option \<Rightarrow> string option \<Rightarrow> db \<Rightarrow> dashboard_answer result" where
  "dashboard_action u intent rid s =
     (if intent = Some ''join-dinner'' then
        (case rid of
           None \<Rightarrow> (Inr (ErrorMessage ''Restaurant ID is required''), s)
         | Some r \<Rightarrow>
             if r = [] then (Inr (ErrorMessage ''Restaurant ID is required''), s)
             else
               (case dashboard_findOrCreateGroup r s of
                  (Inl e, s1) \<Rightarrow> (Inl e, s1)
                | (Inr grp, s1) \<Rightarrow>
                    (case dashboard_updateOrCreateAttendee u (group_id grp) s1 of
                       (Inl e, s2) \<Rightarrow> (Inl e, s2)
                     | (Inr _, s2) \<Rightarrow> (Inr Success, s2))))
      else if intent = Some ''leave-dinner'' then
        (Inr Success, snd (attendee_deleteMany u s))
      else (Inr (ErrorMessage ''Unknown intent''), s))"

text \<open>The dashboard's \<^verbatim>\<open>loader\<close> reads \<^verbatim>\<open>attendee?.dinnerGroup || null\<close>.\<close>

definition dashboard_currentDinnerGroup :: "user_key \<Rightarrow> db \<Rightarrow> dinnerGroup option" where
  "dashboard_currentDinnerGroup u s =
     (case attendee_findFirst u s of
        None \<Rightarrow> None
      | Some a \<Rightarrow> find (\<lambda>g. group_id g = dinnerGroupId a) (dinnerGroups s))"

section \<open>The join and leave action of the restaurant resource route\<close>

text \<open>
  The \<^verbatim>\<open>action\<close> beside the aggregation loader only obtains the restaurant's group
  (\<^verbatim>\<open>prisma.dinnerGroup.upsert\<close> with an empty \<^verbatim>\<open>update\<close>: the group found, or a new
  one with no notes); it writes no attendee row. A database error is caught and
  answered as a failure.
\<close>

datatype resource_answer = Joined generated_key | Left | Failure string

definition dinnerGroup_upsert :: "restaurant_key \<Rightarrow> db \<Rightarrow> dinnerGroup result" where
  "dinnerGroup_upsert r s =
     (case dinnerGroup_findFirst r s of
        Some g \<Rightarrow> (Inr g, s)
      | None \<Rightarrow> dinnerGroup_create r None s)"

definition restaurants_action :: "string option \<Rightarrow> string option \<Rightarrow> db \<Rightarrow> resource_answer \<times> db" where
  "restaurants_action act rid s =
     (case rid of
        None \<Rightarrow> (Failure ''Restaurant ID is required'', s)
      | Some r \<Rightarrow>
          if r = [] then (Failure ''Restaurant ID is required'', s)
          else if act = Some ''join'' then
            (case dinnerGroup_upsert r s of
               (Inl e, s') \<Rightarrow> (Failure ''Failed to join dinner'', s')
             | (Inr g, s') \<Rightarrow> (Joined (group_id g), s'))
          else if act = Some ''leave'' then (Left, s)
          else (Failure ''Invalid action'', s))"

section \<open>States of the database\<close>

text \<open>
  What the storage layer enforces: primary keys are distinct, generated keys are below
  the counter, and every foreign key points at a row.
\<close>

definition db_constraints :: "db \<Rightarrow> bool" where
  "db_constraints s \<longleftrightarrow>
     distinct (map attendee_id (attendees s)) \<and>
     distinct (map group_id (dinnerGroups s)) \<and>
     list_all (\<lambda>a. attendee_id a < nextId s) (attendees s) \<and>
     list_all (\<lambda>g. group_id g < nextId s) (dinnerGroups s) \<and>
     list_all (\<lambda>a. userId a \<in> set (users s) \<and>
                  dinnerGroupId a \<in> set (map group_id (dinnerGroups s))) (attendees s) \<and>
     list_all (\<lambda>g. restaurantId g \<in> set (map restaurant_id (restaurants s))) (dinnerGroups s)"

text \<open>The membership invariant: no two attendee rows name the same user.\<close>

definition one_row_per_user :: "db \<Rightarrow> bool" where
  "one_row_per_user s \<longleftrightarrow> distinct (map userId (attendees s))"

definition init_db :: "user_key list \<Rightarrow> db" where
  "init_db us = \<lparr>users = us, restaurants = [], dinnerGroups = [], attendees = [], nextId = 0\<rparr>"

text \<open>
  The states the requests can produce, one after the other, from empty tables: every
  write of the source that touches a restaurant, a group or an attendee row is a step.
  The upsert step stands for the upserts the aggregation loader issues and for
  \<^verbatim>\<open>updateRestaurant\<close>, which rewrites the row of an existing key.
\<close>

inductive reachable :: "db \<Rightarrow> bool" where
  start: "reachable (init_db us)"
| upsert_restaurant: "reachable s \<Longrightarrow> reachable (restaurant_upsert r s)"
| create_restaurant: "reachable s \<Longrightarrow> reachable (snd (createRestaurant d s))"
| delete_restaurant: "reachable s \<Longrightarrow> reachable (snd (deleteRestaurant k s))"
| create_group: "reachable s \<Longrightarrow> reachable (snd (createDinnerGroup k n s))"
| update_group: "reachable s \<Longrightarrow> reachable (snd (updateDinnerGroup i n s))"
| delete_group: "reachable s \<Longrightarrow> reachable (snd (deleteDinnerGroup i s))"
| join: "reachable s \<Longrightarrow> reachable (snd (joinDinnerGroup u g s))"
| leave: "reachable s \<Longrightarrow> reachable (snd (leaveDinnerGroup u s))"
| dashboard: "reachable s \<Longrightarrow> reachable (snd (dashboard_action u intent rid s))"
| resource: "reachable s \<Longrightarrow> reachable (snd (restaurants_action act rid s))"

section \<open>The place provider\<close>

text \<open>
  A place as the provider's nearby search returns it. Each field has the type the
  provider documents or is absent (\<open>None\<close>): the key is missing, or holds
  \<^verbatim>\<open>null\<close>. \<^verbatim>\<open>geometry\<close> may be absent, or present without \<^verbatim>\<open>location\<close>.
  The fields \<^verbatim>\<open>name\<close>, \<^verbatim>\<open>rating\<close> and \<^verbatim>\<open>geometry\<close> carry the prefix
  \<open>place_\<close>, since a restaurant row has fields of the same names.
\<close>

record latLng =
  loc_lat :: real
  loc_lng :: real

record geometry =
  location :: "latLng option"

record photo =
  photo_reference :: string

record place =
  place_id :: "string option"
  place_name :: "string option"
  vicinity :: "string option"
  types :: "string list option"
  price_level :: "int option"
  place_rating :: "real option"
  place_geometry :: "geometry option"
  photos :: "photo list option"
  website :: "string option"
  url :: "string option"

text \<open>
  What \<^verbatim>\<open>fetch\<close> and \<^verbatim>\<open>response.json()\<close> can do: the request fails, or a response
  arrives whose \<^verbatim>\<open>ok\<close> flag is set or not and whose body parses as JSON or not. The
  parsed body has a \<^verbatim>\<open>status\<close> and a \<^verbatim>\<open>results\<close> array, either of which may be
  missing. The request parameters other than \<^verbatim>\<open>minRating\<close> only enter the request
  URL, so they are not arguments of the model: the outcome of the request is.
\<close>

record payload =
  payload_status :: "string option"
  payload_results :: "place list option"

datatype fetch_body = Unparsable | Json payload

datatype fetch_outcome = NetworkError | Response bool fetch_body

text \<open>
  \<^verbatim>\<open>searchRestaurants\<close> of the provider module the aggregation loader imports (the one
  that exports \<^verbatim>\<open>DEFAULT_VENUE_LOCATION\<close> and \<^verbatim>\<open>calculateDistance\<close>). Its whole body
  is one \<^verbatim>\<open>try\<close> whose \<^verbatim>\<open>catch\<close> returns \<^verbatim>\<open>[]\<close>.
\<close>

definition searchRestaurants :: "real option \<Rightarrow> fetch_outcome \<Rightarrow> place list" where
  "searchRestaurants minRating outcome =
     (case outcome of
        NetworkError \<Rightarrow> []
      | Response ok body \<Rightarrow>
          if \<not> ok then []
          else
            (case body of
               Unparsable \<Rightarrow> []
             | Json data \<Rightarrow>
                 if payload_status data \<noteq> Some ''OK'' \<and>
                    payload_status data \<noteq> Some ''ZERO_RESULTS'' then []
                 else
                   (let results = (case payload_results data of None \<Rightarrow> [] | Some rs \<Rightarrow> rs)
                    in case minRating of
                         None \<Rightarrow> results
                       | Some m \<Rightarrow>
                           filter (\<lambda>place. (case place_rating place of None \<Rightarrow> 0 | Some x \<Rightarrow> x) \<ge> m)
                             results)))"

text \<open>
  \<^verbatim>\<open>searchRestaurants\<close> of the caching provider module (the one that exports
  \<^verbatim>\<open>getPlaceDetails\<close>). A cached value is returned as it is. Otherwise the response
  is validated against \<^verbatim>\<open>googlePlacesResponseSchema\<close>, and the \<^verbatim>\<open>catch\<close> logs the
  error and throws it again. The second component of the result is the value written
  to the cache, if any.
\<close>

datatype search_error = FetchFailed | NotOk | InvalidJson | SchemaMismatch

definition googlePlacesRestaurantSchema :: "place \<Rightarrow> bool" where
  "googlePlacesRestaurantSchema p \<longleftrightarrow>
     place_id p \<noteq> None \<and> place_name p \<noteq> None \<and> vicinity p \<noteq> None \<and> types p \<noteq> None \<and>
     (case place_geometry p of None \<Rightarrow> False | Some g \<Rightarrow> location g \<noteq> None)"

definition googlePlacesResponseSchema :: "payload \<Rightarrow> place list option" where
  "googlePlacesResponseSchema data =
     (case payload_results data of
        None \<Rightarrow> None
      | Some rs \<Rightarrow>
          if list_all googlePlacesRestaurantSchema rs \<and> payload_status data \<noteq> None
          then Some rs else None)"

definition searchRestaurants_cached ::
  "place list option \<Rightarrow> fetch_outcome \<Rightarrow> (search_error + place list) \<times> place list option" where
  "searchRestaurants_cached cachedResults outcome =
     (case cachedResults of
        Some v \<Rightarrow> (Inr v, None)
      | None \<Rightarrow>
          (case outcome of
             NetworkError \<Rightarrow> (Inl FetchFailed, None)
           | Response ok body \<Rightarrow>
               if \<not> ok then (Inl NotOk, None)
               else
                 (case body of
                    Unparsable \<Rightarrow> (Inl InvalidJson, None)
                  | Json data \<Rightarrow>
                      (case googlePlacesResponseSchema data of
                         None \<Rightarrow> (Inl SchemaMismatch, None)
                       | Some rs \<Rightarrow> (Inr rs, Some rs)))))"

text \<open>
  The \<^verbatim>\<open>search\<close> case of the restaurant route's \<^verbatim>\<open>loader\<close> calls the caching
  search and turns whatever it throws into a response with status 400.
\<close>

definition restaurant_route_search ::
  "place list option \<Rightarrow> fetch_outcome \<Rightarrow> http_failure + place list" where
  "restaurant_route_search cachedResults outcome =
     (case fst (searchRestaurants_cached cachedResults outcome) of
        Inl e \<Rightarrow> Inl (Status 400)
      | Inr found \<Rightarrow> Inr found)"

section \<open>The aggregation loader\<close>

text \<open>
  The cards the loader of \<^verbatim>\<open>resources+/restaurants.tsx\<close> returns: a restaurant with the
  walking distance and time, then with the attendance of its group.
\<close>

record restaurant_card = restaurant +
  distance :: real
  walkingTimeMinutes :: int

record restaurant_view = restaurant_card +
  attendeeCount :: nat
  userIsAttending :: bool
  view_dinnerGroupId :: "generated_key option"

text \<open>
  JavaScript's \<^verbatim>\<open>a || b\<close> on an optional string: \<^verbatim>\<open>b\<close> when \<^verbatim>\<open>a\<close> is absent or
  empty. \<^verbatim>\<open>Math.round\<close> rounds halves up.
\<close>

definition or_else :: "string option \<Rightarrow> string \<Rightarrow> string" where
  "or_else a b = (case a of None \<Rightarrow> b | Some x \<Rightarrow> if x = [] then b else x)"

definition or_null :: "string option \<Rightarrow> string option" where
  "or_null a = (case a of None \<Rightarrow> None | Some x \<Rightarrow> if x = [] then None else Some x)"

definition truthy :: "string option \<Rightarrow> bool" where
  "truthy a \<longleftrightarrow> or_null a \<noteq> None"

definition Math_round :: "real \<Rightarrow> int" where
  "Math_round x = \<lfloor>x + 1 / 2\<rfloor>"

text \<open>
  \<^verbatim>\<open>getPhotoUrl\<close>, with \<^verbatim>\<open>maxWidth\<close> at its default. The provider key is an
  argument of the model.
\<close>

definition getPhotoUrl :: "string \<Rightarrow> string \<Rightarrow> string" where
  "getPhotoUrl apiKey photoReference =
     (if photoReference = [] then ''https://placehold.co/400x300?text=Restaurant''
      else ''https://maps.googleapis.com/maps/api/place/photo?maxwidth=400&photoreference='' @
           photoReference @ ''&key='' @ apiKey)"

definition first_type :: "place \<Rightarrow> string \<Rightarrow> string" where
  "first_type p d = (case types p of None \<Rightarrow> d | Some [] \<Rightarrow> d | Some (t # _) \<Rightarrow> t)"

definition place_location :: "place \<Rightarrow> latLng option" where
  "place_location p = (case place_geometry p of None \<Rightarrow> None | Some g \<Rightarrow> location g)"

text \<open>
  The callback the loader maps over the search results. It answers \<^verbatim>\<open>null\<close> for a
  place without geometry or location; otherwise it builds the card and, when the place
  has a \<^verbatim>\<open>place_id\<close>, issues the upsert of the row (the second component).
  \<^verbatim>\<open>calculateDistance\<close> is floating-point trigonometry and is an argument of the model.
\<close>

definition process_place ::
  "string \<Rightarrow> latLng \<Rightarrow> (real \<Rightarrow> real \<Rightarrow> real \<Rightarrow> real \<Rightarrow> real) \<Rightarrow> nat \<Rightarrow> place \<Rightarrow>
   (restaurant_card \<times> restaurant option) option" where
  "process_place apiKey userLocation calculateDistance index p =
     (let photo_url =
            (case photos p of
               None \<Rightarrow> ''https://placehold.co/400x300?text=Restaurant''
             | Some [] \<Rightarrow> ''https://placehold.co/400x300?text=Restaurant''
             | Some (ph # _) \<Rightarrow> getPhotoUrl apiKey (photo_reference ph))
      in case place_location p of
           None \<Rightarrow> None
         | Some loc \<Rightarrow>
             (let d = calculateDistance (loc_lat userLocation) (loc_lng userLocation)
                        (loc_lat loc) (loc_lng loc);
                  walkingTime = Math_round (d / 3 * 60);
                  card =
                    \<lparr>name = or_else (place_name p) ''Unknown Restaurant'',
                     address = or_else (vicinity p) ''Address unavailable'',
                     cuisineType = first_type p ''Restaurant'',
                     priceLevel = (case price_level p of Some n \<Rightarrow> n | None \<Rightarrow> 2),
                     rating = (case place_rating p of Some x \<Rightarrow> x | None \<Rightarrow> 3),
                     lat = loc_lat loc,
                     lng = loc_lng loc,
                     photoUrl = Some photo_url,
                     mapsUrl =
                       (if truthy (place_id p)
                        then Some (''https://www.google.com/maps/place/?q=place_id:'' @
                                   or_else (place_id p) [])
                        else None),
                     websiteUrl = or_null (website p),
                     restaurant_id = or_else (place_id p) (''temp-id-'' @ decimal index),
                     distance = d,
                     walkingTimeMinutes = walkingTime\<rparr>;
                  row =
                    (if truthy (place_id p)
                     then Some
                       \<lparr>name = or_else (place_name p) ''Unknown Restaurant'',
                        address = or_else (vicinity p) ''Address unavailable'',
                        cuisineType = first_type p ''Restaurant'',
                        priceLevel = (case price_level p of Some n \<Rightarrow> n | None \<Rightarrow> 2),
                        rating = (case place_rating p of Some x \<Rightarrow> x | None \<Rightarrow> 3),
                        lat = loc_lat loc,
                        lng = loc_lng loc,
                        photoUrl = Some photo_url,
                        mapsUrl = Some (''https://www.google.com/maps/place/?q=place_id:'' @
                                        or_else (place_id p) []),
                        websiteUrl = or_null (website p),
                        restaurant_id = or_else (place_id p) []\<rparr>
                     else None)
              in Some (card, row)))"

text \<open>
  \<^verbatim>\<open>getRestaurantsWithAttendeeCount\<close>: one entry for each group, with the size of its
  roster; \<^verbatim>\<open>userIsAttending\<close> is the constant \<^verbatim>\<open>false\<close> of the source.
\<close>

record attendeeInfo =
  info_id :: restaurant_key
  info_attendeeCount :: nat
  info_userIsAttending :: bool
  info_dinnerGroupId :: generated_key

definition getRestaurantsWithAttendeeCount :: "db \<Rightarrow> attendeeInfo list" where
  "getRestaurantsWithAttendeeCount s =
     map (\<lambda>group.
            \<lparr>info_id = restaurantId group,
             info_attendeeCount =
               length (filter (\<lambda>a. dinnerGroupId a = group_id group) (attendees s)),
             info_userIsAttending = False,
             info_dinnerGroupId = group_id group\<rparr>)
       (dinnerGroups s)"

definition enhance :: "attendeeInfo list \<Rightarrow> restaurant_card \<Rightarrow> restaurant_view" where
  "enhance restaurantsWithAttendees c =
     (let attendeeInfo = find (\<lambda>r. info_id r = restaurant_id c) restaurantsWithAttendees
      in restaurant_card.extend c
           (restaurant_view.fields
              (case attendeeInfo of None \<Rightarrow> 0 | Some i \<Rightarrow> info_attendeeCount i)
              (case attendeeInfo of None \<Rightarrow> False | Some i \<Rightarrow> info_userIsAttending i)
              (map_option info_dinnerGroupId attendeeInfo)))"

text \<open>
  The loader from the search results on: the callback is mapped over the results with
  their indices, the \<^verbatim>\<open>null\<close>s are filtered out, and each card is enhanced with the
  attendance read from the database. The upserts the callback issued are applied to
  the state in the order of the results. The loader takes no user identity.
\<close>

definition loader_restaurants ::
  "string \<Rightarrow> latLng \<Rightarrow> (real \<Rightarrow> real \<Rightarrow> real \<Rightarrow> real \<Rightarrow> real) \<Rightarrow> place list \<Rightarrow> db \<Rightarrow>
   restaurant_view list \<times> db" where
  "loader_restaurants apiKey userLocation calculateDistance restaurantResults s =
     (let restaurants' =
            map (\<lambda>(index, p). process_place apiKey userLocation calculateDistance index p)
              (enumerate 0 restaurantResults);
          validRestaurants = List.map_filter (map_option fst) restaurants';
          s' = fold restaurant_upsert (List.map_filter (\<lambda>r. Option.bind r snd) restaurants') s;
          restaurantsWithAttendees = getRestaurantsWithAttendeeCount s'
      in (map (enhance restaurantsWithAttendees) validRestaurants, s'))"

definition loader ::
  "string \<Rightarrow> latLng \<Rightarrow> (real \<Rightarrow> real \<Rightarrow> real \<Rightarrow> real \<Rightarrow> real) \<Rightarrow> real option \<Rightarrow>
   fetch_outcome \<Rightarrow> db \<Rightarrow> restaurant_view list \<times> db" where
  "loader apiKey userLocation calculateDistance minRating outcome s =
     loader_restaurants apiKey userLocation calculateDistance
       (searchRestaurants minRating outcome) s"

section \<open>The create action of the restaurant route\<close>

text \<open>
  The \<^verbatim>\<open>create\<close> case of the restaurant route's \<^verbatim>\<open>action\<close> builds the argument of
  \<^verbatim>\<open>createRestaurant\<close> from the details of a place. Reading
  \<^verbatim>\<open>placeDetails.geometry.location.lat\<close> throws when geometry or location is absent,
  and the database client rejects a row without \<^verbatim>\<open>name\<close> or \<^verbatim>\<open>address\<close>; both
  are \<open>None\<close> here. \<^verbatim>\<open>a || b\<close> on a number takes \<^verbatim>\<open>b\<close> when \<^verbatim>\<open>a\<close> is absent or
  zero.
\<close>

definition createRestaurant_data :: "string \<Rightarrow> place \<Rightarrow> restaurantData option" where
  "createRestaurant_data apiKey placeDetails =
     (case (place_location placeDetails, place_name placeDetails, vicinity placeDetails) of
        (Some loc, Some n, Some v) \<Rightarrow>
          Some
            \<lparr>name = n,
             address = v,
             cuisineType = or_else (Some (first_type placeDetails [])) ''restaurant'',
             priceLevel =
               (case price_level placeDetails of
                  None \<Rightarrow> 1
                | Some l \<Rightarrow> if l = 0 then 1 else l),
             rating = (case place_rating placeDetails of None \<Rightarrow> 0 | Some x \<Rightarrow> x),
             lat = loc_lat loc,
             lng = loc_lng loc,
             photoUrl =
               (case photos placeDetails of
                  Some (ph # _) \<Rightarrow>
                    if photo_reference ph = [] then None
                    else Some
                      (''https://maps.googleapis.com/maps/api/place/photo?maxwidth=400&photoreference='' @
                       photo_reference ph @ ''&key='' @ apiKey)
                | _ \<Rightarrow> None),
             mapsUrl = or_null (url placeDetails),
             websiteUrl = or_null (website placeDetails)\<rparr>
      | _ \<Rightarrow> None)"

text \<open>
  The action: \<^verbatim>\<open>getPlaceDetails\<close> yields the details or throws (\<open>None\<close>), and whatever
  is thrown inside the \<^verbatim>\<open>try\<close> leaves as a response with status 500.
\<close>

definition restaurant_action_create ::
  "string \<Rightarrow> place option \<Rightarrow> db \<Rightarrow> (http_failure + restaurant) \<times> db" where
  "restaurant_action_create apiKey details s =
     (case details of
        None \<Rightarrow> (Inl (Status 500), s)
      | Some placeDetails \<Rightarrow>
          (case createRestaurant_data apiKey placeDetails of
             None \<Rightarrow> (Inl (Status 500), s)
           | Some d \<Rightarrow>
               (case createRestaurant d s of
                  (Inl e, s') \<Rightarrow> (Inl (Status 500), s')
                | (Inr r, s') \<Rightarrow> (Inr r, s'))))"

section \<open>Notions the properties are stated with\<close>

text \<open>The attendee rows that reference a user.\<close>

definition attendee_rows :: "user_key \<Rightarrow> db \<Rightarrow> attendee list" where
  "attendee_rows u s = filter (\<lambda>a. userId a = u) (attendees s)"

text \<open>
  One join request of the dashboard, as a step on the state: the user and the
  restaurant of the request.
\<close>

definition dashboard_join :: "user_key \<times> restaurant_key \<Rightarrow> db \<Rightarrow> db" where
  "dashboard_join req s =
     snd (dashboard_action (fst req) (Some ''join-dinner'') (Some (snd req)) s)"

text \<open>
  A small state used to instantiate the theorems: users \<open>x\<close> and \<open>y\<close>, restaurants
  \<open>A\<close>, \<open>B\<close> and \<open>C\<close>, a group for \<open>A\<close> that \<open>x\<close> attends, an empty group for
  \<open>B\<close>, no group for \<open>C\<close>.
\<close>

definition demo_restaurant :: "restaurant_key \<Rightarrow> restaurant" where
  "demo_restaurant k =
     \<lparr>name = ''Diner'', address = ''1 Main St'', cuisineType = ''restaurant'', priceLevel = 2,
      rating = 4, lat = 0, lng = 0, photoUrl = None, mapsUrl = None, websiteUrl = None,
      restaurant_id = k\<rparr>"

definition demo_db :: db where
  "demo_db =
     \<lparr>users = [''x'', ''y''],
      restaurants = [demo_restaurant ''A'', demo_restaurant ''B'', demo_restaurant ''C''],
      dinnerGroups =
        [\<lparr>group_id = 0, restaurantId = ''A'', group_notes = Some []\<rparr>,
         \<lparr>group_id = 2, restaurantId = ''B'', group_notes = None\<rparr>],
      attendees = [\<lparr>attendee_id = 1, userId = ''x'', dinnerGroupId = 0\<rparr>],
      nextId = 3\<rparr>"

text \<open>
  A place with the given key, with or without geometry, that has neither price level nor
  rating.
\<close>

definition demo_place :: "string \<Rightarrow> bool \<Rightarrow> place" where
  "demo_place k geo =
     \<lparr>place_id = Some k, place_name = Some ''Diner'', vicinity = Some ''1 Main St'',
      types = Some [''restaurant''], price_level = None, place_rating = None,
      place_geometry =
        (if geo then Some \<lparr>location = Some \<lparr>loc_lat = 0, loc_lng = 0\<rparr>\<rparr> else None),
      photos = None, website = None, url = None\<rparr>"

text \<open>
  The spec's words for the price tier: an ordinal from 1 to 4. A mid-tier level is one
  that is neither the lowest nor the highest.
\<close>

definition mid_tier :: "int \<Rightarrow> bool" where
  "mid_tier l \<longleftrightarrow> 1 < l \<and> l < 4"

text \<open>
  The failures of the call to the place provider: the request fails, the response is
  not OK, or its body does not parse.
\<close>

definition request_fails :: "fetch_outcome \<Rightarrow> bool" where
  "request_fails outcome =
     (case outcome of
        NetworkError \<Rightarrow> True
      | Response ok body \<Rightarrow> \<not> ok \<or> body = Unparsable)"

section \<open>Invariants of the database\<close>

lemma distinct_map_filter_keep: "distinct (map f xs) \<Longrightarrow> distinct (map f (filter P xs))"
  by (induction xs) auto

lemma find_userId_unique:
  assumes "distinct (map userId xs)" and "find (\<lambda>a. userId a = u) xs = Some a"
    and "b \<in> set xs" and "userId b = u"
  shows "b = a"
proof -
  from assms(2) have "a \<in> set xs" and "userId a = u"
    by (auto simp: find_Some_iff)
  with assms(1,3,4) show ?thesis
    by (auto simp: distinct_map dest: inj_onD)
qed

lemma one_row_attendee_delete:
  "one_row_per_user s \<Longrightarrow> one_row_per_user (snd (attendee_delete i s))"
  by (auto simp: one_row_per_user_def attendee_delete_def distinct_map_filter_keep split: option.splits)

lemma one_row_attendee_create:
  "one_row_per_user s \<Longrightarrow> u \<notin> userId ` set (attendees s) \<Longrightarrow>
   one_row_per_user (snd (attendee_create u g s))"
  by (auto simp: one_row_per_user_def attendee_create_def Let_def)

lemma map_userId_repoint:
  "map userId (map (\<lambda>b. if attendee_id b = i then b\<lparr>dinnerGroupId := g\<rparr> else b) xs) = map userId xs"
  by (induction xs) auto

lemma one_row_attendee_update:
  "one_row_per_user s \<Longrightarrow> one_row_per_user (snd (attendee_update i g s))"
  unfolding one_row_per_user_def attendee_update_def
  by (simp add: map_userId_repoint del: map_map split: option.splits)

lemma find_own_id: "a \<in> set xs \<Longrightarrow> find (\<lambda>b. attendee_id b = attendee_id a) xs \<noteq> None"
  by (auto simp: find_None_iff)

lemma user_gone_after_delete:
  assumes "one_row_per_user s" and "attendee_findFirst u s = Some a"
  shows "u \<notin> userId ` set (attendees (snd (attendee_delete (attendee_id a) s)))"
proof -
  have same: "b = a" if "b \<in> set (attendees s)" "userId b = u" for b
    using find_userId_unique [of "attendees s" u a b] assms that
    by (simp add: one_row_per_user_def attendee_findFirst_def)
  have "a \<in> set (attendees s)"
    using assms(2) by (auto simp: attendee_findFirst_def find_Some_iff)
  then obtain d where "find (\<lambda>b. attendee_id b = attendee_id a) (attendees s) = Some d"
    using find_own_id by fastforce
  then show ?thesis
    using same by (auto simp: attendee_delete_def)
qed

lemma one_row_joinDinnerGroup:
  assumes "one_row_per_user s"
  shows "one_row_per_user (snd (joinDinnerGroup u g s))"
proof (cases "attendee_findFirst u s")
  case None
  then have "u \<notin> userId ` set (attendees s)"
    by (auto simp: attendee_findFirst_def find_None_iff)
  with assms None show ?thesis
    by (simp add: joinDinnerGroup_def one_row_attendee_create)
next
  case (Some a)
  let ?d = "attendee_delete (attendee_id a) s"
  have inv: "one_row_per_user (snd ?d)"
    using assms by (rule one_row_attendee_delete)
  have gone: "u \<notin> userId ` set (attendees (snd ?d))"
    using assms Some by (rule user_gone_after_delete)
  show ?thesis
  proof (cases ?d)
    case (Pair res s')
    with inv gone Some show ?thesis
      by (cases res) (simp_all add: joinDinnerGroup_def one_row_attendee_create)
  qed
qed

lemma one_row_leaveDinnerGroup:
  "one_row_per_user s \<Longrightarrow> one_row_per_user (snd (leaveDinnerGroup u s))"
proof -
  assume inv: "one_row_per_user s"
  show ?thesis
  proof (cases "attendee_findFirst u s")
    case None
    with inv show ?thesis by (simp add: leaveDinnerGroup_def)
  next
    case (Some a)
    have "one_row_per_user (snd (attendee_delete (attendee_id a) s))"
      using inv by (rule one_row_attendee_delete)
    with Some show ?thesis
      by (cases "attendee_delete (attendee_id a) s")
        (auto simp: leaveDinnerGroup_def split: sum.splits)
  qed
qed

lemma one_row_attendee_deleteMany:
  "one_row_per_user s \<Longrightarrow> one_row_per_user (snd (attendee_deleteMany u s))"
  by (simp add: one_row_per_user_def attendee_deleteMany_def distinct_map_filter_keep)

lemma attendees_dinnerGroup_create [simp]:
  "attendees (snd (dinnerGroup_create r n s)) = attendees s"
  by (simp add: dinnerGroup_create_def Let_def)

lemma attendees_dinnerGroup_update [simp]:
  "attendees (snd (dinnerGroup_update i n s)) = attendees s"
  by (simp add: dinnerGroup_update_def split: option.splits)

lemma attendees_restaurant_upsert [simp]:
  "attendees (restaurant_upsert r s) = attendees s"
  by (simp add: restaurant_upsert_def)

lemma attendees_restaurant_create [simp]:
  "attendees (snd (restaurant_create d s)) = attendees s"
  by (simp add: restaurant_create_def Let_def)

lemma one_row_same_attendees:
  "attendees s' = attendees s \<Longrightarrow> one_row_per_user s \<Longrightarrow> one_row_per_user s'"
  by (simp add: one_row_per_user_def)

lemma one_row_dinnerGroup_delete:
  "one_row_per_user s \<Longrightarrow> one_row_per_user (snd (dinnerGroup_delete i s))"
  by (auto simp: one_row_per_user_def dinnerGroup_delete_def distinct_map_filter_keep
      split: option.splits)

lemma one_row_restaurant_delete:
  "one_row_per_user s \<Longrightarrow> one_row_per_user (snd (restaurant_delete r s))"
  by (auto simp: one_row_per_user_def restaurant_delete_def distinct_map_filter_keep
      split: option.splits)

lemma attendees_findOrCreateGroup [simp]:
  "attendees (snd (dashboard_findOrCreateGroup r s)) = attendees s"
  by (simp add: dashboard_findOrCreateGroup_def split: option.splits)

lemma attendees_dinnerGroup_upsert [simp]:
  "attendees (snd (dinnerGroup_upsert r s)) = attendees s"
  by (simp add: dinnerGroup_upsert_def split: option.splits)

lemma one_row_updateOrCreateAttendee:
  assumes inv: "one_row_per_user s"
  shows "one_row_per_user (snd (dashboard_updateOrCreateAttendee u g s))"
proof (cases "attendee_findFirst u s")
  case None
  then have "u \<notin> userId ` set (attendees s)"
    by (auto simp: attendee_findFirst_def find_None_iff)
  with inv None show ?thesis
    by (simp add: dashboard_updateOrCreateAttendee_def one_row_attendee_create)
next
  case (Some a)
  with inv show ?thesis
    by (simp add: dashboard_updateOrCreateAttendee_def one_row_attendee_update)
qed

lemma one_row_dashboard_action:
  assumes inv: "one_row_per_user s"
  shows "one_row_per_user (snd (dashboard_action u intent rid s))"
proof -
  have join: "one_row_per_user (snd (
      case dashboard_findOrCreateGroup r s of
        (Inl e, s1) \<Rightarrow> (Inl e, s1)
      | (Inr grp, s1) \<Rightarrow>
          (case dashboard_updateOrCreateAttendee u (group_id grp) s1 of
             (Inl e, s2) \<Rightarrow> (Inl e, s2)
           | (Inr x, s2) \<Rightarrow> (Inr Success, s2))))" for r
  proof (cases "dashboard_findOrCreateGroup r s")
    case (Pair res s1)
    have s1: "one_row_per_user s1"
      using one_row_same_attendees [OF attendees_findOrCreateGroup inv, of r] Pair by simp
    show ?thesis
    proof (cases res)
      case (Inl e)
      with Pair s1 show ?thesis by simp
    next
      case (Inr grp)
      have "one_row_per_user (snd (dashboard_updateOrCreateAttendee u (group_id grp) s1))"
        using s1 by (rule one_row_updateOrCreateAttendee)
      with Pair Inr show ?thesis
        by (cases "dashboard_updateOrCreateAttendee u (group_id grp) s1")
          (auto split: sum.splits)
    qed
  qed
  show ?thesis
    using inv join one_row_attendee_deleteMany [OF inv, of u]
    by (auto simp: dashboard_action_def split: option.splits)
qed

lemma one_row_restaurants_action:
  assumes inv: "one_row_per_user s"
  shows "one_row_per_user (snd (restaurants_action act rid s))"
proof -
  have "attendees (snd (case dinnerGroup_upsert r s of
               (Inl e, s') \<Rightarrow> (Failure ''Failed to join dinner'', s')
             | (Inr g, s') \<Rightarrow> (Joined (group_id g), s'))) = attendees s" for r
    using attendees_dinnerGroup_upsert [of r s]
    by (cases "dinnerGroup_upsert r s") (auto split: sum.splits)
  then have "attendees (snd (restaurants_action act rid s)) = attendees s"
    by (auto simp: restaurants_action_def split: option.splits)
  then show ?thesis using inv by (rule one_row_same_attendees)
qed

lemma reachable_one_row: "reachable s \<Longrightarrow> one_row_per_user s"
proof (induction rule: reachable.induct)
  case (start us)
  show ?case by (simp add: one_row_per_user_def init_db_def)
next
  case (upsert_restaurant s r)
  then show ?case by (simp add: one_row_per_user_def)
next
  case (create_restaurant s d)
  then show ?case by (simp add: createRestaurant_def one_row_per_user_def)
next
  case (delete_restaurant s k)
  then show ?case by (simp add: deleteRestaurant_def one_row_restaurant_delete)
next
  case (create_group s k n)
  then show ?case by (simp add: createDinnerGroup_def one_row_per_user_def)
next
  case (update_group s i n)
  then show ?case by (simp add: updateDinnerGroup_def one_row_per_user_def)
next
  case (delete_group s i)
  then show ?case by (simp add: deleteDinnerGroup_def one_row_dinnerGroup_delete)
next
  case (join s u g)
  then show ?case by (simp add: one_row_joinDinnerGroup)
next
  case (leave s u)
  then show ?case by (simp add: one_row_leaveDinnerGroup)
next
  case (dashboard s u intent rid)
  then show ?case by (simp add: one_row_dashboard_action)
next
  case (resource s act rid)
  then show ?case by (simp add: one_row_restaurants_action)
qed

lemma db_constraints_attendee_delete:
  "db_constraints s \<Longrightarrow> db_constraints (snd (attendee_delete i s))"
  by (auto simp: db_constraints_def attendee_delete_def distinct_map_filter_keep list_all_iff
      split: option.splits)

lemma db_constraints_attendee_create:
  "db_constraints s \<Longrightarrow> db_constraints (snd (attendee_create u g s))"
  by (auto simp: db_constraints_def attendee_create_def Let_def list_all_iff less_Suc_eq)

lemma map_attendee_id_repoint:
  "map attendee_id (map (\<lambda>b. if attendee_id b = i then b\<lparr>dinnerGroupId := g\<rparr> else b) xs) =
   map attendee_id xs"
  by (induction xs) auto

lemma db_constraints_attendee_update:
  "db_constraints s \<Longrightarrow> db_constraints (snd (attendee_update i g s))"
  unfolding db_constraints_def attendee_update_def
  by (auto simp: map_attendee_id_repoint list_all_iff simp del: map_map split: option.splits)

lemma db_constraints_attendee_deleteMany:
  "db_constraints s \<Longrightarrow> db_constraints (snd (attendee_deleteMany u s))"
  by (auto simp: db_constraints_def attendee_deleteMany_def distinct_map_filter_keep list_all_iff)

lemma db_constraints_dinnerGroup_create:
  "db_constraints s \<Longrightarrow> db_constraints (snd (dinnerGroup_create r n s))"
  by (auto simp: db_constraints_def dinnerGroup_create_def Let_def list_all_iff less_Suc_eq)

lemma db_constraints_columns:
  "db_constraints s \<longleftrightarrow>
     distinct (map attendee_id (attendees s)) \<and>
     distinct (map group_id (dinnerGroups s)) \<and>
     (\<forall>i \<in> set (map attendee_id (attendees s)). i < nextId s) \<and>
     (\<forall>i \<in> set (map group_id (dinnerGroups s)). i < nextId s) \<and>
     set (map userId (attendees s)) \<subseteq> set (users s) \<and>
     set (map dinnerGroupId (attendees s)) \<subseteq> set (map group_id (dinnerGroups s)) \<and>
     set (map restaurantId (dinnerGroups s)) \<subseteq> set (map restaurant_id (restaurants s))"
  by (auto simp: db_constraints_def list_all_iff)

lemma map_group_id_renote:
  "map group_id (map (\<lambda>h. if group_id h = i then h\<lparr>group_notes := n\<rparr> else h) xs) =
   map group_id xs"
  by (induction xs) auto

lemma map_restaurantId_renote:
  "map restaurantId (map (\<lambda>h. if group_id h = i then h\<lparr>group_notes := n\<rparr> else h) xs) =
   map restaurantId xs"
  by (induction xs) auto

lemma db_constraints_dinnerGroup_update:
  "db_constraints s \<Longrightarrow> db_constraints (snd (dinnerGroup_update i n s))"
  unfolding db_constraints_columns dinnerGroup_update_def
  by (simp add: map_group_id_renote map_restaurantId_renote del: map_map set_map
      split: option.splits)

lemma db_constraints_dinnerGroup_delete:
  "db_constraints s \<Longrightarrow> db_constraints (snd (dinnerGroup_delete i s))"
  by (auto simp: db_constraints_def dinnerGroup_delete_def distinct_map_filter_keep list_all_iff
      split: option.splits)

lemma map_restaurant_id_replace:
  "map restaurant_id (map (\<lambda>q. if restaurant_id q = restaurant_id r then r else q) xs) =
   map restaurant_id xs"
  by (induction xs) auto

lemma db_constraints_restaurant_upsert:
  "db_constraints s \<Longrightarrow> db_constraints (restaurant_upsert r s)"
  unfolding db_constraints_columns restaurant_upsert_def
  by (auto simp: map_restaurant_id_replace simp del: map_map set_map)

lemma db_constraints_restaurant_create:
  "db_constraints s \<Longrightarrow> db_constraints (snd (restaurant_create d s))"
  by (auto simp: db_constraints_def restaurant_create_def Let_def list_all_iff less_Suc_eq)

lemma db_constraints_restaurant_delete:
  assumes ok: "db_constraints s"
  shows "db_constraints (snd (restaurant_delete r s))"
proof (cases "find (\<lambda>q. restaurant_id q = r) (restaurants s)")
  case None
  with ok show ?thesis by (simp add: restaurant_delete_def)
next
  case (Some q)
  have kept: "dinnerGroupId a \<in> group_id ` {g \<in> set (dinnerGroups s). restaurantId g \<noteq> r}"
    if "a \<in> set (attendees s)"
      and "dinnerGroupId a \<notin> group_id ` {g \<in> set (dinnerGroups s). restaurantId g = r}" for a
  proof -
    from ok that(1) obtain g where "g \<in> set (dinnerGroups s)" "group_id g = dinnerGroupId a"
      by (auto simp: db_constraints_def list_all_iff)
    with that(2) show ?thesis by force
  qed
  have rest: "restaurantId g \<in> restaurant_id ` {p \<in> set (restaurants s). restaurant_id p \<noteq> r}"
    if "g \<in> set (dinnerGroups s)" and "restaurantId g \<noteq> r" for g
    using ok that by (auto simp: db_constraints_def list_all_iff)
  show ?thesis
    using ok Some kept rest
    by (simp add: db_constraints_def restaurant_delete_def distinct_map_filter_keep list_all_iff)
qed

lemma db_constraints_joinDinnerGroup:
  assumes ok: "db_constraints s"
  shows "db_constraints (snd (joinDinnerGroup u g s))"
proof (cases "attendee_findFirst u s")
  case None
  with ok show ?thesis by (simp add: joinDinnerGroup_def db_constraints_attendee_create)
next
  case (Some a)
  let ?d = "attendee_delete (attendee_id a) s"
  have d: "db_constraints (snd ?d)" using ok by (rule db_constraints_attendee_delete)
  then have "db_constraints (snd (attendee_create u g (snd ?d)))"
    by (rule db_constraints_attendee_create)
  with d Some show ?thesis
    by (cases ?d) (auto simp: joinDinnerGroup_def split: sum.splits)
qed

lemma db_constraints_leaveDinnerGroup:
  assumes ok: "db_constraints s"
  shows "db_constraints (snd (leaveDinnerGroup u s))"
proof (cases "attendee_findFirst u s")
  case None
  with ok show ?thesis by (simp add: leaveDinnerGroup_def)
next
  case (Some a)
  have "db_constraints (snd (attendee_delete (attendee_id a) s))"
    using ok by (rule db_constraints_attendee_delete)
  with Some show ?thesis
    by (cases "attendee_delete (attendee_id a) s") (auto simp: leaveDinnerGroup_def split: sum.splits)
qed

lemma db_constraints_findOrCreateGroup:
  "db_constraints s \<Longrightarrow> db_constraints (snd (dashboard_findOrCreateGroup r s))"
  by (simp add: dashboard_findOrCreateGroup_def db_constraints_dinnerGroup_create split: option.splits)

lemma db_constraints_dinnerGroup_upsert:
  "db_constraints s \<Longrightarrow> db_constraints (snd (dinnerGroup_upsert r s))"
  by (simp add: dinnerGroup_upsert_def db_constraints_dinnerGroup_create split: option.splits)

lemma db_constraints_updateOrCreateAttendee:
  "db_constraints s \<Longrightarrow> db_constraints (snd (dashboard_updateOrCreateAttendee u g s))"
  by (simp add: dashboard_updateOrCreateAttendee_def db_constraints_attendee_create
      db_constraints_attendee_update split: option.splits)

lemma db_constraints_dashboard_action:
  assumes ok: "db_constraints s"
  shows "db_constraints (snd (dashboard_action u intent rid s))"
proof -
  have join: "db_constraints (snd (
      case dashboard_findOrCreateGroup r s of
        (Inl e, s1) \<Rightarrow> (Inl e, s1)
      | (Inr grp, s1) \<Rightarrow>
          (case dashboard_updateOrCreateAttendee u (group_id grp) s1 of
             (Inl e, s2) \<Rightarrow> (Inl e, s2)
           | (Inr x, s2) \<Rightarrow> (Inr Success, s2))))" for r
  proof (cases "dashboard_findOrCreateGroup r s")
    case (Pair res s1)
    have s1: "db_constraints s1"
      using db_constraints_findOrCreateGroup [OF ok, of r] Pair by simp
    show ?thesis
    proof (cases res)
      case (Inl e)
      with Pair s1 show ?thesis by simp
    next
      case (Inr grp)
      have "db_constraints (snd (dashboard_updateOrCreateAttendee u (group_id grp) s1))"
        using s1 by (rule db_constraints_updateOrCreateAttendee)
      with Pair Inr show ?thesis
        by (cases "dashboard_updateOrCreateAttendee u (group_id grp) s1")
          (auto split: sum.splits)
    qed
  qed
  show ?thesis
    using ok join db_constraints_attendee_deleteMany [OF ok, of u]
    by (auto simp: dashboard_action_def split: option.splits)
qed

lemma db_constraints_restaurants_action:
  assumes ok: "db_constraints s"
  shows "db_constraints (snd (restaurants_action act rid s))"
proof -
  have "db_constraints (snd (case dinnerGroup_upsert r s of
               (Inl e, s') \<Rightarrow> (Failure ''Failed to join dinner'', s')
             | (Inr g, s') \<Rightarrow> (Joined (group_id g), s')))" for r
    using db_constraints_dinnerGroup_upsert [OF ok, of r]
    by (cases "dinnerGroup_upsert r s") (auto split: sum.splits)
  with ok show ?thesis
    by (auto simp: restaurants_action_def split: option.splits)
qed

lemma reachable_db_constraints: "reachable s \<Longrightarrow> db_constraints s"
proof (induction rule: reachable.induct)
  case (start us)
  show ?case by (simp add: db_constraints_def init_db_def)
next
  case (upsert_restaurant s r)
  then show ?case by (simp add: db_constraints_restaurant_upsert)
next
  case (create_restaurant s d)
  then show ?case by (simp add: createRestaurant_def db_constraints_restaurant_create)
next
  case (delete_restaurant s k)
  then show ?case by (simp add: deleteRestaurant_def db_constraints_restaurant_delete)
next
  case (create_group s k n)
  then show ?case by (simp add: createDinnerGroup_def db_constraints_dinnerGroup_create)
next
  case (update_group s i n)
  then show ?case by (simp add: updateDinnerGroup_def db_constraints_dinnerGroup_update)
next
  case (delete_group s i)
  then show ?case by (simp add: deleteDinnerGroup_def db_constraints_dinnerGroup_delete)
next
  case (join s u g)
  then show ?case by (simp add: db_constraints_joinDinnerGroup)
next
  case (leave s u)
  then show ?case by (simp add: db_constraints_leaveDinnerGroup)
next
  case (dashboard s u intent rid)
  then show ?case by (simp add: db_constraints_dashboard_action)
next
  case (resource s act rid)
  then show ?case by (simp add: db_constraints_restaurants_action)
qed

text \<open>Under the constraints, deleting the user's first row by its key removes the user's rows and no other.\<close>

lemma filter_own_key:
  assumes ids: "distinct (map attendee_id xs)" and usr: "distinct (map userId xs)"
    and a: "a \<in> set xs"
  shows "filter (\<lambda>b. attendee_id b \<noteq> attendee_id a) xs = filter (\<lambda>b. userId b \<noteq> userId a) xs"
proof (rule filter_cong [OF refl])
  fix b assume b: "b \<in> set xs"
  have "attendee_id b = attendee_id a \<longleftrightarrow> b = a"
    using ids a b by (auto simp: distinct_map dest: inj_onD)
  moreover have "userId b = userId a \<longleftrightarrow> b = a"
    using usr a b by (auto simp: distinct_map dest: inj_onD)
  ultimately show "(attendee_id b \<noteq> attendee_id a) = (userId b \<noteq> userId a)" by simp
qed

lemma find_by_own_key:
  assumes "distinct (map attendee_id xs)" and "a \<in> set xs"
  shows "find (\<lambda>b. attendee_id b = attendee_id a) xs = Some a"
proof -
  obtain d where d: "find (\<lambda>b. attendee_id b = attendee_id a) xs = Some d"
    using find_own_id [OF assms(2)] by fastforce
  then have "d \<in> set xs" "attendee_id d = attendee_id a"
    by (auto simp: find_Some_iff)
  with assms have "d = a" by (auto simp: distinct_map dest: inj_onD)
  with d show ?thesis by simp
qed

lemma attendee_delete_first_row:
  assumes ok: "db_constraints s" and one: "one_row_per_user s"
    and a: "attendee_findFirst u s = Some a"
  shows "attendee_delete (attendee_id a) s =
           (Inr a, s\<lparr>attendees := filter (\<lambda>b. userId b \<noteq> u) (attendees s)\<rparr>)"
proof -
  from a have mem: "a \<in> set (attendees s)" and ua: "userId a = u"
    by (auto simp: attendee_findFirst_def find_Some_iff)
  have ids: "distinct (map attendee_id (attendees s))"
    using ok by (simp add: db_constraints_def)
  have "find (\<lambda>b. attendee_id b = attendee_id a) (attendees s) = Some a"
    using ids mem by (rule find_by_own_key)
  moreover have "filter (\<lambda>b. attendee_id b \<noteq> attendee_id a) (attendees s) =
      filter (\<lambda>b. userId b \<noteq> u) (attendees s)"
    using filter_own_key [OF ids _ mem] one ua by (simp add: one_row_per_user_def)
  ultimately show ?thesis by (simp add: attendee_delete_def)
qed

lemma no_row_filter:
  "attendee_findFirst u s = None \<Longrightarrow> filter (\<lambda>b. userId b \<noteq> u) (attendees s) = attendees s"
  by (auto simp: attendee_findFirst_def find_None_iff filter_id_conv)

text \<open>What a join into an existing group by a registered user does to a well-formed state.\<close>

lemma joinDinnerGroup_replaces:
  assumes ok: "db_constraints s" and one: "one_row_per_user s"
    and u: "u \<in> set (users s)" and g: "g \<in> set (map group_id (dinnerGroups s))"
  shows "joinDinnerGroup u g s =
           (Inr \<lparr>attendee_id = nextId s, userId = u, dinnerGroupId = g\<rparr>,
            s\<lparr>attendees := filter (\<lambda>b. userId b \<noteq> u) (attendees s) @
                 [\<lparr>attendee_id = nextId s, userId = u, dinnerGroupId = g\<rparr>],
              nextId := Suc (nextId s)\<rparr>)"
proof (cases "attendee_findFirst u s")
  case None
  then have "\<not> list_ex (\<lambda>a. userId a = u \<and> dinnerGroupId a = g) (attendees s)"
    by (auto simp: attendee_findFirst_def find_None_iff list_ex_iff)
  with None u g show ?thesis
    by (simp add: joinDinnerGroup_def attendee_create_def no_row_filter Let_def)
next
  case (Some a)
  have del: "attendee_delete (attendee_id a) s =
      (Inr a, s\<lparr>attendees := filter (\<lambda>b. userId b \<noteq> u) (attendees s)\<rparr>)"
    using ok one Some by (rule attendee_delete_first_row)
  have "\<not> list_ex (\<lambda>a. userId a = u \<and> dinnerGroupId a = g) (filter (\<lambda>b. userId b \<noteq> u) (attendees s))"
    by (auto simp: list_ex_iff)
  with Some del u g show ?thesis
    by (simp add: joinDinnerGroup_def attendee_create_def Let_def)
qed

lemma distinct_map_iff_rows:
  "distinct (map f xs) \<longleftrightarrow> (\<forall>v. length (filter (\<lambda>a. f a = v) xs) \<le> 1)"
proof (induction xs)
  case Nil
  show ?case by simp
next
  case (Cons x xs)
  have "f x \<notin> f ` set xs \<longleftrightarrow> filter (\<lambda>a. f a = f x) xs = []"
    unfolding filter_empty_conv image_iff by metis
  with Cons show ?case
    by (auto simp: le_Suc_eq)
qed

lemma one_row_per_user_rows:
  "one_row_per_user s \<longleftrightarrow> (\<forall>v. length (attendee_rows v s) \<le> 1)"
  by (simp add: one_row_per_user_def attendee_rows_def distinct_map_iff_rows)

text \<open>The state used to instantiate the theorems is reachable and well formed.\<close>

lemma demo_db_reachable: "reachable demo_db"
proof -
  let ?s2 = "restaurant_upsert (demo_restaurant ''C'')
      (restaurant_upsert (demo_restaurant ''B'')
        (restaurant_upsert (demo_restaurant ''A'') (init_db [''x'', ''y''])))"
  have "demo_db = snd (createDinnerGroup ''B'' None (dashboard_join (''x'', ''A'') ?s2))"
    by (simp add: demo_db_def demo_restaurant_def init_db_def restaurant_upsert_def
        dashboard_join_def dashboard_action_def dashboard_findOrCreateGroup_def
        dashboard_updateOrCreateAttendee_def dinnerGroup_findFirst_def dinnerGroup_create_def
        attendee_findFirst_def attendee_create_def createDinnerGroup_def Let_def)
  moreover have "reachable (snd (createDinnerGroup ''B'' None (dashboard_join (''x'', ''A'') ?s2)))"
    unfolding dashboard_join_def by (intro reachable.intros)
  ultimately show ?thesis by simp
qed

lemma demo_db_constraints: "db_constraints demo_db"
  by (simp add: db_constraints_def demo_db_def demo_restaurant_def)

lemma demo_db_one_row: "one_row_per_user demo_db"
  by (simp add: one_row_per_user_def demo_db_def)

lemma find_group_by_key:
  assumes "distinct (map group_id gs)" and "g \<in> set gs"
  shows "find (\<lambda>h. group_id h = group_id g) gs = Some g"
proof -
  have "find (\<lambda>h. group_id h = group_id g) gs \<noteq> None"
    using assms(2) by (auto simp: find_None_iff)
  then obtain d where d: "find (\<lambda>h. group_id h = group_id g) gs = Some d" by fastforce
  then have "d \<in> set gs" "group_id d = group_id g" by (auto simp: find_Some_iff)
  with assms have "d = g" by (auto simp: distinct_map dest: inj_onD)
  with d show ?thesis by simp
qed

lemma find_new_row:
  "find (\<lambda>a. userId a = u) (filter (\<lambda>b. userId b \<noteq> u) xs @ [n]) =
     (if userId n = u then Some n else None)"
  by (induction xs) auto

lemma group_keys_differ:
  assumes "db_constraints s" and "g1 \<in> set (dinnerGroups s)" and "g2 \<in> set (dinnerGroups s)"
    and "restaurantId g1 \<noteq> restaurantId g2"
  shows "group_id g1 \<noteq> group_id g2"
proof
  assume "group_id g1 = group_id g2"
  moreover have "distinct (map group_id (dinnerGroups s))"
    using assms(1) by (simp add: db_constraints_def)
  ultimately have "g1 = g2"
    using assms(2,3) by (auto simp: distinct_map dest: inj_onD)
  with assms(4) show False by simp
qed

lemma rows_single:
  assumes "one_row_per_user s" and "attendee_findFirst u s = Some a"
  shows "attendee_rows u s = [a]"
proof -
  have len: "length (attendee_rows u s) \<le> 1"
    using assms(1) by (simp add: one_row_per_user_rows)
  have "a \<in> set (attendee_rows u s)"
    using assms(2) by (auto simp: attendee_rows_def attendee_findFirst_def find_Some_iff)
  with len show ?thesis
    by (cases "attendee_rows u s") auto
qed

lemma rows_none: "attendee_findFirst u s = None \<longleftrightarrow> attendee_rows u s = []"
  by (auto simp: attendee_rows_def attendee_findFirst_def find_None_iff filter_empty_conv)

lemma findFirst_after_removal:
  "attendee_findFirst u (s\<lparr>attendees := filter (\<lambda>b. userId b \<noteq> u) (attendees s)\<rparr>) = None"
  by (simp add: attendee_findFirst_def find_None_iff)

lemma dinnerGroups_updateOrCreateAttendee [simp]:
  "dinnerGroups (snd (dashboard_updateOrCreateAttendee u g s)) = dinnerGroups s"
  by (simp add: dashboard_updateOrCreateAttendee_def attendee_update_def attendee_create_def
      Let_def split: option.splits)

lemma dinnerGroups_dashboard_join:
  "dinnerGroups (dashboard_join (u, k) s) =
     dinnerGroups (if k = [] then s else snd (dashboard_findOrCreateGroup k s))"
proof (cases "k = []")
  case True
  then show ?thesis by (simp add: dashboard_join_def dashboard_action_def)
next
  case False
  show ?thesis
  proof (cases "dashboard_findOrCreateGroup k s")
    case (Pair res s1)
    show ?thesis
    proof (cases res)
      case (Inl e)
      with Pair False show ?thesis by (simp add: dashboard_join_def dashboard_action_def)
    next
      case (Inr grp)
      have "dinnerGroups (snd (dashboard_updateOrCreateAttendee u (group_id grp) s1)) =
          dinnerGroups s1" by simp
      with Pair Inr False show ?thesis
        by (cases "dashboard_updateOrCreateAttendee u (group_id grp) s1")
          (auto simp: dashboard_join_def dashboard_action_def split: sum.splits)
    qed
  qed
qed

lemma findFirst_group_filter:
  "dinnerGroup_findFirst r s = None \<longleftrightarrow> filter (\<lambda>h. restaurantId h = r) (dinnerGroups s) = []"
  by (auto simp: dinnerGroup_findFirst_def find_None_iff filter_empty_conv)

lemma find_of_single_filter: "filter P xs = [g] \<Longrightarrow> find P xs = Some g"
  by (induction xs) (auto split: if_splits)

lemma findFirst_group_single:
  "filter (\<lambda>h. restaurantId h = r) (dinnerGroups s) = [g] \<Longrightarrow> dinnerGroup_findFirst r s = Some g"
  unfolding dinnerGroup_findFirst_def by (rule find_of_single_filter)

lemma single_group_kept:
  assumes "filter (\<lambda>h. restaurantId h = r) (dinnerGroups s) = [g]"
  shows "filter (\<lambda>h. restaurantId h = r) (dinnerGroups (dashboard_join (u, k) s)) = [g]"
proof (cases "k = r")
  case True
  have "dinnerGroup_findFirst r s = Some g"
    using assms by (rule findFirst_group_single)
  with True assms show ?thesis
    by (auto simp: dinnerGroups_dashboard_join dashboard_findOrCreateGroup_def)
next
  case False
  with assms show ?thesis
    by (simp add: dinnerGroups_dashboard_join dashboard_findOrCreateGroup_def
        dinnerGroup_create_def Let_def split: option.splits)
qed

lemma single_group_kept_fold:
  "filter (\<lambda>h. restaurantId h = r) (dinnerGroups s) = [g] \<Longrightarrow>
   filter (\<lambda>h. restaurantId h = r) (dinnerGroups (fold dashboard_join reqs s)) = [g]"
proof (induction reqs arbitrary: s)
  case Nil
  then show ?case by simp
next
  case (Cons q reqs)
  obtain v k where q: "q = (v, k)" by (cases q)
  have "filter (\<lambda>h. restaurantId h = r) (dinnerGroups (dashboard_join (v, k) s)) = [g]"
    using Cons.prems by (rule single_group_kept)
  with q show ?case by (simp add: Cons.IH)
qed

section \<open>Properties of the aggregation loader\<close>

lemma process_place_None:
  "process_place k origin calc i p = None \<longleftrightarrow> place_location p = None"
  by (simp add: process_place_def Let_def split: option.splits)

lemma cards_project:
  assumes "\<And>i p c r. process_place k origin calc i p = Some (c, r) \<Longrightarrow> h c = h' p"
  shows "map h (List.map_filter (map_option fst)
           (map (\<lambda>(i, p). process_place k origin calc i p) (enumerate n ps))) =
         map h' (filter (\<lambda>p. place_location p \<noteq> None) ps)"
proof (induction ps arbitrary: n)
  case Nil
  show ?case by (simp add: List.map_filter_simps)
next
  case (Cons p ps)
  show ?case
  proof (cases "process_place k origin calc n p")
    case None
    then have "place_location p = None" by (simp add: process_place_None)
    with None Cons [of "Suc n"] show ?thesis by (simp add: List.map_filter_simps)
  next
    case (Some cr)
    obtain c r where cr: "cr = (c, r)" by (cases cr)
    have "place_location p \<noteq> None"
      using Some process_place_None [of k origin calc n p] by simp
    moreover have "h c = h' p" using assms Some cr by simp
    ultimately show ?thesis
      using Some cr Cons [of "Suc n"] by (simp add: List.map_filter_simps)
  qed
qed

lemma enhance_keeps:
  "lat (enhance info c) = lat c" "lng (enhance info c) = lng c"
  "name (enhance info c) = name c" "priceLevel (enhance info c) = priceLevel c"
  "rating (enhance info c) = rating c" "restaurant_id (enhance info c) = restaurant_id c"
  by (simp_all add: enhance_def Let_def restaurant_card.defs restaurant_view.defs)

lemma views_project:
  assumes "\<And>i p c r. process_place k origin calc i p = Some (c, r) \<Longrightarrow> h c = h' p"
    and "\<And>info c. g (enhance info c) = h c"
  shows "map g (fst (loader_restaurants k origin calc ps s)) =
         map h' (filter (\<lambda>p. place_location p \<noteq> None) ps)"
proof -
  have "map g (fst (loader_restaurants k origin calc ps s)) =
      map h (List.map_filter (map_option fst)
           (map (\<lambda>(i, p). process_place k origin calc i p) (enumerate 0 ps)))"
    by (simp add: loader_restaurants_def Let_def assms(2) comp_def)
  then show ?thesis using cards_project [OF assms(1)] by simp
qed

lemma info_never_attending:
  "find P (getRestaurantsWithAttendeeCount s) = Some i \<Longrightarrow> \<not> info_userIsAttending i"
  by (auto simp: getRestaurantsWithAttendeeCount_def find_Some_iff)

lemma enhance_never_attending: "\<not> userIsAttending (enhance (getRestaurantsWithAttendeeCount s) c)"
  by (auto simp: enhance_def Let_def restaurant_card.defs restaurant_view.defs
      split: option.splits dest: info_never_attending)

lemma loader_never_attending:
  "filter userIsAttending (fst (loader_restaurants k origin calc ps s)) = []"
  by (simp add: loader_restaurants_def Let_def filter_empty_conv enhance_never_attending)

lemma restaurant_create_fields:
  "restaurant_create d s = (Inr r, s') \<Longrightarrow>
     priceLevel r = priceLevel d \<and> rating r = rating d \<and> r \<in> set (restaurants s')"
  by (auto simp: restaurant_create_def Let_def restaurantData.defs restaurant.defs
      split: if_splits)

section \<open>What the two join paths do to a well-formed state\<close>

lemma joinDinnerGroup_two_joins:
  assumes ok: "db_constraints s" and one: "one_row_per_user s" and u: "u \<in> set (users s)"
    and g1: "g1 \<in> set (dinnerGroups s)" and g2: "g2 \<in> set (dinnerGroups s)"
    and r: "restaurantId g1 \<noteq> restaurantId g2"
  shows "\<exists>a1 s1 a2 s2.
           joinDinnerGroup u (group_id g1) s = (Inr a1, s1) \<and>
           joinDinnerGroup u (group_id g2) s1 = (Inr a2, s2) \<and>
           filter (\<lambda>a. userId a = u \<and> dinnerGroupId a = group_id g1) (attendees s2) = [] \<and>
           getAttendeesCount (group_id g1) s2 =
             length (filter (\<lambda>a. dinnerGroupId a = group_id g1 \<and> userId a \<noteq> u) (attendees s)) \<and>
           filter (\<lambda>a. userId a = u \<and> dinnerGroupId a = group_id g2) (attendees s2) = [a2] \<and>
           getAttendeesCount (group_id g2) s2 =
             Suc (length (filter (\<lambda>a. dinnerGroupId a = group_id g2 \<and> userId a \<noteq> u) (attendees s)))"
proof -
  let ?a1 = "\<lparr>attendee_id = nextId s, userId = u, dinnerGroupId = group_id g1\<rparr>"
  let ?s1 = "s\<lparr>attendees := filter (\<lambda>b. userId b \<noteq> u) (attendees s) @ [?a1],
               nextId := Suc (nextId s)\<rparr>"
  let ?a2 = "\<lparr>attendee_id = Suc (nextId s), userId = u, dinnerGroupId = group_id g2\<rparr>"
  let ?s2 = "s\<lparr>attendees := filter (\<lambda>b. userId b \<noteq> u) (attendees s) @ [?a2],
               nextId := Suc (Suc (nextId s))\<rparr>"
  have j1: "joinDinnerGroup u (group_id g1) s = (Inr ?a1, ?s1)"
    using ok one u g1 by (intro joinDinnerGroup_replaces) auto
  have ok1: "db_constraints ?s1"
    using db_constraints_joinDinnerGroup [OF ok, of u "group_id g1"] j1 by simp
  have one1: "one_row_per_user ?s1"
    using one_row_joinDinnerGroup [OF one, of u "group_id g1"] j1 by simp
  have "joinDinnerGroup u (group_id g2) ?s1 =
      (Inr \<lparr>attendee_id = nextId ?s1, userId = u, dinnerGroupId = group_id g2\<rparr>,
       ?s1\<lparr>attendees := filter (\<lambda>b. userId b \<noteq> u) (attendees ?s1) @
               [\<lparr>attendee_id = nextId ?s1, userId = u, dinnerGroupId = group_id g2\<rparr>],
            nextId := Suc (nextId ?s1)\<rparr>)"
    using ok1 one1 u g2 by (intro joinDinnerGroup_replaces) auto
  then have j2: "joinDinnerGroup u (group_id g2) ?s1 = (Inr ?a2, ?s2)" by simp
  have ne: "group_id g1 \<noteq> group_id g2"
    using ok g1 g2 r by (rule group_keys_differ)
  have c1: "filter (\<lambda>a. dinnerGroupId a = group_id g1) (filter (\<lambda>b. userId b \<noteq> u) (attendees s)) =
      filter (\<lambda>a. dinnerGroupId a = group_id g1 \<and> userId a \<noteq> u) (attendees s)"
    by (simp add: conj_commute)
  have c2: "filter (\<lambda>a. dinnerGroupId a = group_id g2) (filter (\<lambda>b. userId b \<noteq> u) (attendees s)) =
      filter (\<lambda>a. dinnerGroupId a = group_id g2 \<and> userId a \<noteq> u) (attendees s)"
    by (simp add: conj_commute)
  have none: "filter (\<lambda>a. userId a = u \<and> dinnerGroupId a = g) (filter (\<lambda>b. userId b \<noteq> u) xs) = []" for g xs
    by (induction xs) auto
  show ?thesis
    using j1 j2 ne c1 c2 none
    by (simp add: getAttendeesCount_def attendee_count_def)
qed

lemma find_append_keep: "find P xs = Some g \<Longrightarrow> find P (xs @ ys) = Some g"
  by (induction xs) (auto split: if_splits)

lemma find_append_new: "find P xs = None \<Longrightarrow> P g \<Longrightarrow> find P (xs @ [g]) = Some g"
  by (induction xs) (auto split: if_splits)

lemma findOrCreateGroup_effect:
  assumes ok: "db_constraints s"
    and r: "dinnerGroup_findFirst r s \<noteq> None \<or> r \<in> set (map restaurant_id (restaurants s))"
  shows "\<exists>grp s1. dashboard_findOrCreateGroup r s = (Inr grp, s1) \<and>
           dinnerGroup_findFirst r s1 = Some grp \<and>
           attendees s1 = attendees s \<and> users s1 = users s \<and>
           (\<forall>k g. dinnerGroup_findFirst k s = Some g \<longrightarrow> dinnerGroup_findFirst k s1 = Some g)"
proof (cases "dinnerGroup_findFirst r s")
  case (Some g)
  then show ?thesis by (simp add: dashboard_findOrCreateGroup_def)
next
  case None
  with r have "r \<in> set (map restaurant_id (restaurants s))" by simp
  with None show ?thesis
    by (auto simp: dashboard_findOrCreateGroup_def dinnerGroup_create_def Let_def
        dinnerGroup_findFirst_def find_append_keep find_append_new)
qed

lemma repoint_by_user:
  assumes ids: "distinct (map attendee_id xs)" and usr: "distinct (map userId xs)"
    and a: "a \<in> set xs"
  shows "map (\<lambda>b. if attendee_id b = attendee_id a then b\<lparr>dinnerGroupId := g\<rparr> else b) xs =
         map (\<lambda>b. if userId b = userId a then b\<lparr>dinnerGroupId := g\<rparr> else b) xs"
proof (rule map_cong [OF refl])
  fix b assume b: "b \<in> set xs"
  have "attendee_id b = attendee_id a \<longleftrightarrow> b = a"
    using ids a b by (auto simp: distinct_map dest: inj_onD)
  moreover have "userId b = userId a \<longleftrightarrow> b = a"
    using usr a b by (auto simp: distinct_map dest: inj_onD)
  ultimately show "(if attendee_id b = attendee_id a then b\<lparr>dinnerGroupId := g\<rparr> else b) =
      (if userId b = userId a then b\<lparr>dinnerGroupId := g\<rparr> else b)" by simp
qed

lemma filter_user_repointed:
  "filter (\<lambda>b. userId b = u) (map (\<lambda>b. if userId b = u then b\<lparr>dinnerGroupId := g\<rparr> else b) xs) =
     map (\<lambda>b. b\<lparr>dinnerGroupId := g\<rparr>) (filter (\<lambda>b. userId b = u) xs)"
  by (induction xs) auto

lemma filter_others_repointed:
  "filter (\<lambda>b. userId b \<noteq> u) (map (\<lambda>b. if userId b = u then b\<lparr>dinnerGroupId := g\<rparr> else b) xs) =
     filter (\<lambda>b. userId b \<noteq> u) xs"
  by (induction xs) auto

lemma updateOrCreateAttendee_effect:
  assumes ok: "db_constraints s" and one: "one_row_per_user s"
    and u: "u \<in> set (users s)" and g: "g \<in> set (map group_id (dinnerGroups s))"
  shows "\<exists>a s2. dashboard_updateOrCreateAttendee u g s = (Inr a, s2) \<and>
           attendee_rows u s2 = [a] \<and> dinnerGroupId a = g \<and>
           filter (\<lambda>b. userId b \<noteq> u) (attendees s2) = filter (\<lambda>b. userId b \<noteq> u) (attendees s) \<and>
           dinnerGroups s2 = dinnerGroups s"
proof (cases "attendee_findFirst u s")
  case None
  then have no: "filter (\<lambda>b. userId b = u) (attendees s) = []"
    by (simp add: rows_none attendee_rows_def)
  then have "\<not> list_ex (\<lambda>a. userId a = u \<and> dinnerGroupId a = g) (attendees s)"
    by (auto simp: list_ex_iff filter_empty_conv)
  with None u g no show ?thesis
    by (simp add: dashboard_updateOrCreateAttendee_def attendee_create_def Let_def
        attendee_rows_def)
next
  case (Some a)
  from Some have mem: "a \<in> set (attendees s)" and ua: "userId a = u"
    by (auto simp: attendee_findFirst_def find_Some_iff)
  have ids: "distinct (map attendee_id (attendees s))"
    using ok by (simp add: db_constraints_def)
  have usr: "distinct (map userId (attendees s))"
    using one by (simp add: one_row_per_user_def)
  have key: "find (\<lambda>b. attendee_id b = attendee_id a) (attendees s) = Some a"
    using ids mem by (rule find_by_own_key)
  have same: "b = a" if "b \<in> set (attendees s)" "userId b = userId a" for b
    using usr mem that by (auto simp: distinct_map dest: inj_onD)
  have uniq: "\<not> list_ex (\<lambda>b. attendee_id b \<noteq> attendee_id a \<and> userId b = userId a \<and>
      dinnerGroupId b = g) (attendees s)"
    using same by (auto simp: list_ex_iff)
  have rows: "filter (\<lambda>b. userId b = u) (attendees s) = [a]"
    using rows_single [OF one Some] by (simp add: attendee_rows_def)
  have upd: "attendee_update (attendee_id a) g s =
      (Inr (a\<lparr>dinnerGroupId := g\<rparr>),
       s\<lparr>attendees := map (\<lambda>b. if userId b = u then b\<lparr>dinnerGroupId := g\<rparr> else b) (attendees s)\<rparr>)"
    using key g uniq repoint_by_user [OF ids usr mem, of g] ua
    by (simp add: attendee_update_def)
  show ?thesis
    using Some upd rows
    by (simp add: dashboard_updateOrCreateAttendee_def attendee_rows_def
        filter_user_repointed filter_others_repointed)
qed

lemma dashboard_join_effect:
  assumes ok: "db_constraints s" and one: "one_row_per_user s" and u: "u \<in> set (users s)"
    and ne: "r \<noteq> []"
    and r: "dinnerGroup_findFirst r s \<noteq> None \<or> r \<in> set (map restaurant_id (restaurants s))"
  shows "\<exists>grp a s2. dashboard_action u (Some ''join-dinner'') (Some r) s = (Inr Success, s2) \<and>
           dinnerGroup_findFirst r s2 = Some grp \<and>
           attendee_rows u s2 = [a] \<and> dinnerGroupId a = group_id grp \<and>
           filter (\<lambda>b. userId b \<noteq> u) (attendees s2) = filter (\<lambda>b. userId b \<noteq> u) (attendees s) \<and>
           users s2 = users s \<and>
           (\<forall>k g. dinnerGroup_findFirst k s = Some g \<longrightarrow> dinnerGroup_findFirst k s2 = Some g)"
proof -
  obtain grp s1 where f: "dashboard_findOrCreateGroup r s = (Inr grp, s1)"
    and g1: "dinnerGroup_findFirst r s1 = Some grp"
    and a1: "attendees s1 = attendees s" and u1: "users s1 = users s"
    and keep: "\<forall>k g. dinnerGroup_findFirst k s = Some g \<longrightarrow> dinnerGroup_findFirst k s1 = Some g"
    using findOrCreateGroup_effect [OF ok r] by blast
  have ok1: "db_constraints s1"
    using db_constraints_findOrCreateGroup [OF ok, of r] f by simp
  have one1: "one_row_per_user s1"
    using one a1 by (simp add: one_row_per_user_def)
  have gid: "group_id grp \<in> set (map group_id (dinnerGroups s1))"
    using g1 by (auto simp: dinnerGroup_findFirst_def find_Some_iff)
  obtain a s2 where j: "dashboard_updateOrCreateAttendee u (group_id grp) s1 = (Inr a, s2)"
    and rows: "attendee_rows u s2 = [a]" and ga: "dinnerGroupId a = group_id grp"
    and others: "filter (\<lambda>b. userId b \<noteq> u) (attendees s2) = filter (\<lambda>b. userId b \<noteq> u) (attendees s1)"
    and grps: "dinnerGroups s2 = dinnerGroups s1"
    using updateOrCreateAttendee_effect [OF ok1 one1 _ gid, of u] u u1 by auto
  have us: "users s2 = users s1"
    using j by (auto simp: dashboard_updateOrCreateAttendee_def attendee_update_def
        attendee_create_def Let_def split: option.splits if_splits)
  have "dashboard_action u (Some ''join-dinner'') (Some r) s = (Inr Success, s2)"
    using ne f j by (simp add: dashboard_action_def)
  moreover have "dinnerGroup_findFirst k s2 = dinnerGroup_findFirst k s1" for k
    using grps by (simp add: dinnerGroup_findFirst_def)
  ultimately show ?thesis
    using g1 rows ga others a1 keep us u1 by auto
qed

lemma length_filter_split:
  "length (filter P xs) =
     length (filter (\<lambda>b. P b \<and> Q b) xs) + length (filter (\<lambda>b. P b \<and> \<not> Q b) xs)"
  by (induction xs) auto

lemma currentGroup_of_single_row:
  assumes ok: "db_constraints s" and rows: "attendee_rows u s = [a]"
    and g: "dinnerGroup_findFirst r s = Some grp" and ag: "dinnerGroupId a = group_id grp"
  shows "dashboard_currentDinnerGroup u s = Some grp \<and>
         (\<exists>c. getCurrentDinnerGroup u s = Some c \<and> cur_dinnerGroup c = grp \<and>
              restaurant_id (cur_restaurant c) = r)"
proof -
  have first: "attendee_findFirst u s = Some a"
    using rows unfolding attendee_rows_def attendee_findFirst_def by (rule find_of_single_filter)
  from g have mem: "grp \<in> set (dinnerGroups s)" and rg: "restaurantId grp = r"
    by (auto simp: dinnerGroup_findFirst_def find_Some_iff)
  have byid: "find (\<lambda>h. group_id h = group_id grp) (dinnerGroups s) = Some grp"
    using ok mem by (intro find_group_by_key) (simp_all add: db_constraints_def)
  have "r \<in> set (map restaurant_id (restaurants s))"
    using ok mem rg by (auto simp: db_constraints_def list_all_iff)
  then have "find (\<lambda>q. restaurant_id q = r) (restaurants s) \<noteq> None"
    by (auto simp: find_None_iff)
  then obtain q where q: "find (\<lambda>q. restaurant_id q = r) (restaurants s) = Some q"
    by fastforce
  then have "restaurant_id q = r" by (auto simp: find_Some_iff)
  with first byid q ag rg show ?thesis
    by (simp add: dashboard_currentDinnerGroup_def getCurrentDinnerGroup_def)
qed

lemma dashboard_two_joins:
  assumes ok: "db_constraints s" and one: "one_row_per_user s" and u: "u \<in> set (users s)"
    and ne: "r1 \<noteq> []" "r2 \<noteq> []" and diff: "r1 \<noteq> r2"
    and r1: "r1 \<in> set (map restaurant_id (restaurants s))"
    and r2: "r2 \<in> set (map restaurant_id (restaurants s))"
  shows "\<exists>s2 s4 h1 h2 a.
           dashboard_action u (Some ''join-dinner'') (Some r1) s = (Inr Success, s2) \<and>
           dashboard_action u (Some ''join-dinner'') (Some r2) s2 = (Inr Success, s4) \<and>
           dinnerGroup_findFirst r1 s4 = Some h1 \<and> dinnerGroup_findFirst r2 s4 = Some h2 \<and>
           attendee_rows u s4 = [a] \<and> dinnerGroupId a = group_id h2 \<and>
           getAttendeesCount (group_id h1) s4 =
             length (filter (\<lambda>a. dinnerGroupId a = group_id h1 \<and> userId a \<noteq> u) (attendees s)) \<and>
           getAttendeesCount (group_id h2) s4 =
             Suc (length (filter (\<lambda>a. dinnerGroupId a = group_id h2 \<and> userId a \<noteq> u) (attendees s)))"
proof -
  obtain h1 s2 where d1: "dashboard_action u (Some ''join-dinner'') (Some r1) s = (Inr Success, s2)"
    and g1: "dinnerGroup_findFirst r1 s2 = Some h1"
    and o1: "filter (\<lambda>b. userId b \<noteq> u) (attendees s2) = filter (\<lambda>b. userId b \<noteq> u) (attendees s)"
    and u2: "users s2 = users s"
    using dashboard_join_effect [OF ok one u ne(1)] r1 by blast
  have ok2: "db_constraints s2"
    using db_constraints_dashboard_action [OF ok, of u "Some ''join-dinner''" "Some r1"] d1 by simp
  have one2: "one_row_per_user s2"
    using one_row_dashboard_action [OF one, of u "Some ''join-dinner''" "Some r1"] d1 by simp
  have rs: "restaurants s2 = restaurants s"
    using d1 by (auto simp: dashboard_action_def dashboard_findOrCreateGroup_def
        dashboard_updateOrCreateAttendee_def dinnerGroup_create_def attendee_update_def
        attendee_create_def Let_def ne split: option.splits if_splits sum.splits prod.splits)
  have u': "u \<in> set (users s2)" using u u2 by simp
  have r2': "dinnerGroup_findFirst r2 s2 \<noteq> None \<or> r2 \<in> set (map restaurant_id (restaurants s2))"
    using r2 rs by simp
  obtain h2 a s4 where d2: "dashboard_action u (Some ''join-dinner'') (Some r2) s2 = (Inr Success, s4)"
    and g2: "dinnerGroup_findFirst r2 s4 = Some h2"
    and rows: "attendee_rows u s4 = [a]" and ag: "dinnerGroupId a = group_id h2"
    and o2: "filter (\<lambda>b. userId b \<noteq> u) (attendees s4) = filter (\<lambda>b. userId b \<noteq> u) (attendees s2)"
    and keep: "\<forall>k g. dinnerGroup_findFirst k s2 = Some g \<longrightarrow> dinnerGroup_findFirst k s4 = Some g"
    using dashboard_join_effect [OF ok2 one2 u' ne(2) r2'] by blast
  have g1': "dinnerGroup_findFirst r1 s4 = Some h1" using keep g1 by simp
  have ok4: "db_constraints s4"
    using db_constraints_dashboard_action [OF ok2, of u "Some ''join-dinner''" "Some r2"] d2 by simp
  from g1' have m1: "h1 \<in> set (dinnerGroups s4)" and rh1: "restaurantId h1 = r1"
    by (auto simp: dinnerGroup_findFirst_def find_Some_iff)
  from g2 have m2: "h2 \<in> set (dinnerGroups s4)" and rh2: "restaurantId h2 = r2"
    by (auto simp: dinnerGroup_findFirst_def find_Some_iff)
  have neq: "group_id h1 \<noteq> group_id h2"
    using ok4 m1 m2 by (rule group_keys_differ) (simp add: rh1 rh2 diff)
  have others: "filter (\<lambda>b. userId b \<noteq> u) (attendees s4) = filter (\<lambda>b. userId b \<noteq> u) (attendees s)"
    using o1 o2 by simp
  have mine: "filter (\<lambda>b. userId b = u) (attendees s4) = [a]"
    using rows by (simp add: attendee_rows_def)
  have count: "getAttendeesCount k s4 =
      length (filter (\<lambda>b. dinnerGroupId b = k) [a]) +
      length (filter (\<lambda>b. dinnerGroupId b = k \<and> userId b \<noteq> u) (attendees s))" for k
  proof -
    have "filter (\<lambda>b. dinnerGroupId b = k \<and> userId b = u) (attendees s4) =
        filter (\<lambda>b. dinnerGroupId b = k) (filter (\<lambda>b. userId b = u) (attendees s4))"
      by (simp add: conj_commute)
    moreover have "filter (\<lambda>b. dinnerGroupId b = k \<and> userId b \<noteq> u) (attendees s4) =
        filter (\<lambda>b. dinnerGroupId b = k) (filter (\<lambda>b. userId b \<noteq> u) (attendees s4))"
      by (simp add: conj_commute)
    moreover have "filter (\<lambda>b. dinnerGroupId b = k \<and> userId b \<noteq> u) (attendees s) =
        filter (\<lambda>b. dinnerGroupId b = k) (filter (\<lambda>b. userId b \<noteq> u) (attendees s))"
      by (simp add: conj_commute)
    ultimately show ?thesis
      using length_filter_split [of "\<lambda>b. dinnerGroupId b = k" "attendees s4" "\<lambda>b. userId b = u"]
      by (simp only: getAttendeesCount_def attendee_count_def mine others)
  qed
  show ?thesis
    using d1 d2 g1' g2 rows ag neq count [of "group_id h1"] count [of "group_id h2"]
    by auto
qed

section \<open>The claims\<close>

text \<open>
  Claim C1. In every state the requests can reach, a user is referenced by at most one
  attendee row. And from any state in which every user has at most one row,
  \<^verbatim>\<open>joinDinnerGroup\<close> (which deletes the user's row before it creates the new one),
  \<^verbatim>\<open>leaveDinnerGroup\<close> (which only deletes) and the dashboard's action (which
  repoints the user's row or creates one, or deletes the user's rows) lead to such a
  state again, whether the call succeeds or throws half-way.
\<close>

theorem membership_invariant:
  "(reachable s \<longrightarrow> length (attendee_rows u s) \<le> 1) \<and>
   ((\<forall>v. length (attendee_rows v s) \<le> 1) \<longrightarrow>
      (\<forall>v. length (attendee_rows v (snd (joinDinnerGroup u g s))) \<le> 1) \<and>
      (\<forall>v. length (attendee_rows v (snd (leaveDinnerGroup u s))) \<le> 1) \<and>
      (\<forall>v. length (attendee_rows v (snd (dashboard_action u intent rid s))) \<le> 1))"
proof (intro conjI impI)
  assume "reachable s"
  then have "one_row_per_user s" by (rule reachable_one_row)
  then show "length (attendee_rows u s) \<le> 1" by (simp add: one_row_per_user_rows)
next
  assume "\<forall>v. length (attendee_rows v s) \<le> 1"
  then have inv: "one_row_per_user s" by (simp add: one_row_per_user_rows)
  show "\<forall>v. length (attendee_rows v (snd (joinDinnerGroup u g s))) \<le> 1"
    using one_row_joinDinnerGroup [OF inv] by (simp add: one_row_per_user_rows)
  show "\<forall>v. length (attendee_rows v (snd (leaveDinnerGroup u s))) \<le> 1"
    using one_row_leaveDinnerGroup [OF inv] by (simp add: one_row_per_user_rows)
  show "\<forall>v. length (attendee_rows v (snd (dashboard_action u intent rid s))) \<le> 1"
    using one_row_dashboard_action [OF inv] by (simp add: one_row_per_user_rows)
qed

theorem membership_invariant_witness:
  "reachable demo_db \<and> length (attendee_rows ''x'' demo_db) \<le> 1 \<and>
   (\<forall>v. length (attendee_rows v demo_db) \<le> 1) \<and>
   (\<forall>v. length (attendee_rows v (snd (joinDinnerGroup ''x'' 2 demo_db))) \<le> 1) \<and>
   (\<forall>v. length (attendee_rows v (snd (leaveDinnerGroup ''x'' demo_db))) \<le> 1) \<and>
   (\<forall>v. length (attendee_rows v
      (snd (dashboard_action ''x'' (Some ''join-dinner'') (Some ''B'') demo_db))) \<le> 1)"
proof -
  have r: "reachable demo_db" by (rule demo_db_reachable)
  have h: "\<forall>v. length (attendee_rows v demo_db) \<le> 1"
    using demo_db_one_row by (simp add: one_row_per_user_rows)
  show ?thesis
    using r h membership_invariant [of demo_db "''x''" 2 "Some ''join-dinner''" "Some ''B''"]
    by blast
qed

text \<open>
  Claim C2. In a state that satisfies the storage constraints and has at most one row
  for each user, a registered user who joins an existing group succeeds, and
  \<^verbatim>\<open>getCurrentDinnerGroup\<close> called next returns a record (not \<^verbatim>\<open>null\<close>) whose
  group is the one joined: its restaurant key is that of the group's restaurant, and
  the new attendee row is on its roster. The same holds for the dashboard's join of
  the restaurant followed by the read of the dashboard's loader.
\<close>

theorem join_then_currentGroup:
  assumes ok: "db_constraints s" and one: "one_row_per_user s" and u: "u \<in> set (users s)"
    and grp: "grp \<in> set (dinnerGroups s)" and r: "restaurantId grp = r"
  shows "(\<exists>a s' c. joinDinnerGroup u (group_id grp) s = (Inr a, s') \<and>
            getCurrentDinnerGroup u s' = Some c \<and>
            cur_dinnerGroup c = grp \<and> restaurantId (cur_dinnerGroup c) = r \<and>
            restaurant_id (cur_restaurant c) = r \<and> a \<in> set (cur_attendees c)) \<and>
         (r \<noteq> [] \<longrightarrow>
            (\<exists>s' g c. dashboard_action u (Some ''join-dinner'') (Some r) s = (Inr Success, s') \<and>
               dashboard_currentDinnerGroup u s' = Some g \<and> restaurantId g = r \<and>
               getCurrentDinnerGroup u s' = Some c \<and> cur_dinnerGroup c = g \<and>
               restaurant_id (cur_restaurant c) = r))"
proof (intro conjI impI)
  let ?a = "\<lparr>attendee_id = nextId s, userId = u, dinnerGroupId = group_id grp\<rparr>"
  let ?s' = "s\<lparr>attendees := filter (\<lambda>b. userId b \<noteq> u) (attendees s) @ [?a],
               nextId := Suc (nextId s)\<rparr>"
  have j: "joinDinnerGroup u (group_id grp) s = (Inr ?a, ?s')"
    using ok one u grp by (intro joinDinnerGroup_replaces) auto
  have first: "attendee_findFirst u ?s' = Some ?a"
    by (simp add: attendee_findFirst_def find_new_row)
  have g: "find (\<lambda>h. group_id h = group_id grp) (dinnerGroups s) = Some grp"
    using ok grp by (intro find_group_by_key) (simp_all add: db_constraints_def)
  have "r \<in> set (map restaurant_id (restaurants s))"
    using ok grp r by (auto simp: db_constraints_def list_all_iff)
  then have "find (\<lambda>q. restaurant_id q = r) (restaurants s) \<noteq> None"
    by (auto simp: find_None_iff)
  then obtain q where q: "find (\<lambda>q. restaurant_id q = r) (restaurants s) = Some q"
    by fastforce
  then have qr: "restaurant_id q = r" by (auto simp: find_Some_iff)
  have "getCurrentDinnerGroup u ?s' =
      Some \<lparr>cur_attendee = ?a, cur_dinnerGroup = grp, cur_restaurant = q,
            cur_attendees = filter (\<lambda>b. dinnerGroupId b = group_id grp) (attendees ?s')\<rparr>"
    using first g q r by (simp add: getCurrentDinnerGroup_def)
  with j qr r show "\<exists>a s' c. joinDinnerGroup u (group_id grp) s = (Inr a, s') \<and>
            getCurrentDinnerGroup u s' = Some c \<and>
            cur_dinnerGroup c = grp \<and> restaurantId (cur_dinnerGroup c) = r \<and>
            restaurant_id (cur_restaurant c) = r \<and> a \<in> set (cur_attendees c)"
    by simp
next
  assume ne: "r \<noteq> []"
  have ex: "dinnerGroup_findFirst r s \<noteq> None"
    using grp r by (auto simp: dinnerGroup_findFirst_def find_None_iff)
  then obtain g a s2 where d: "dashboard_action u (Some ''join-dinner'') (Some r) s = (Inr Success, s2)"
    and g: "dinnerGroup_findFirst r s2 = Some g"
    and rows: "attendee_rows u s2 = [a]" and ag: "dinnerGroupId a = group_id g"
    using dashboard_join_effect [OF ok one u ne] by blast
  have ok2: "db_constraints s2"
    using db_constraints_dashboard_action [OF ok, of u "Some ''join-dinner''" "Some r"] d by simp
  have "restaurantId g = r"
    using g by (auto simp: dinnerGroup_findFirst_def find_Some_iff)
  with d currentGroup_of_single_row [OF ok2 rows g ag]
  show "\<exists>s' g c. dashboard_action u (Some ''join-dinner'') (Some r) s = (Inr Success, s') \<and>
               dashboard_currentDinnerGroup u s' = Some g \<and> restaurantId g = r \<and>
               getCurrentDinnerGroup u s' = Some c \<and> cur_dinnerGroup c = g \<and>
               restaurant_id (cur_restaurant c) = r"
    by auto
qed

theorem join_then_currentGroup_witness:
  "db_constraints demo_db \<and> one_row_per_user demo_db \<and> ''x'' \<in> set (users demo_db) \<and>
   \<lparr>group_id = 2, restaurantId = ''B'', group_notes = None\<rparr> \<in> set (dinnerGroups demo_db) \<and>
   (\<exists>a s' c. joinDinnerGroup ''x'' 2 demo_db = (Inr a, s') \<and>
      getCurrentDinnerGroup ''x'' s' = Some c \<and>
      cur_dinnerGroup c = \<lparr>group_id = 2, restaurantId = ''B'', group_notes = None\<rparr> \<and>
      restaurantId (cur_dinnerGroup c) = ''B'' \<and>
      restaurant_id (cur_restaurant c) = ''B'' \<and> a \<in> set (cur_attendees c)) \<and>
   (\<exists>s' g c. dashboard_action ''x'' (Some ''join-dinner'') (Some ''B'') demo_db = (Inr Success, s') \<and>
      dashboard_currentDinnerGroup ''x'' s' = Some g \<and> restaurantId g = ''B'' \<and>
      getCurrentDinnerGroup ''x'' s' = Some c \<and> cur_dinnerGroup c = g \<and>
      restaurant_id (cur_restaurant c) = ''B'')"
proof -
  have u: "''x'' \<in> set (users demo_db)" by (simp add: demo_db_def)
  have g: "\<lparr>group_id = 2, restaurantId = ''B'', group_notes = None\<rparr> \<in> set (dinnerGroups demo_db)"
    by (simp add: demo_db_def)
  show ?thesis
    using demo_db_constraints demo_db_one_row u g
      join_then_currentGroup [OF demo_db_constraints demo_db_one_row u g, of "''B''"]
    by simp
qed

text \<open>
  Claim C3. A registered user joins the group of one restaurant and then the group of
  another. Both joins succeed; afterwards the first group has no row of the user and
  its count is the number of its other members, and the second group has exactly one
  row of the user and its count is the number of its other members plus one. This is
  shown for \<^verbatim>\<open>joinDinnerGroup\<close> on two existing groups, and for the dashboard's join
  on two restaurants that have rows (their groups are created when missing).
\<close>

theorem join_twice_counts:
  assumes ok: "db_constraints s" and one: "one_row_per_user s" and u: "u \<in> set (users s)"
  shows "(g1 \<in> set (dinnerGroups s) \<and> g2 \<in> set (dinnerGroups s) \<and>
          restaurantId g1 \<noteq> restaurantId g2 \<longrightarrow>
           (\<exists>a1 s1 a2 s2.
              joinDinnerGroup u (group_id g1) s = (Inr a1, s1) \<and>
              joinDinnerGroup u (group_id g2) s1 = (Inr a2, s2) \<and>
              filter (\<lambda>a. userId a = u \<and> dinnerGroupId a = group_id g1) (attendees s2) = [] \<and>
              getAttendeesCount (group_id g1) s2 =
                length (filter (\<lambda>a. dinnerGroupId a = group_id g1 \<and> userId a \<noteq> u) (attendees s)) \<and>
              filter (\<lambda>a. userId a = u \<and> dinnerGroupId a = group_id g2) (attendees s2) = [a2] \<and>
              getAttendeesCount (group_id g2) s2 =
                Suc (length (filter (\<lambda>a. dinnerGroupId a = group_id g2 \<and> userId a \<noteq> u)
                  (attendees s))))) \<and>
         (r1 \<noteq> [] \<and> r2 \<noteq> [] \<and> r1 \<noteq> r2 \<and>
          r1 \<in> set (map restaurant_id (restaurants s)) \<and>
          r2 \<in> set (map restaurant_id (restaurants s)) \<longrightarrow>
           (\<exists>s2 s4 h1 h2 a.
              dashboard_action u (Some ''join-dinner'') (Some r1) s = (Inr Success, s2) \<and>
              dashboard_action u (Some ''join-dinner'') (Some r2) s2 = (Inr Success, s4) \<and>
              dinnerGroup_findFirst r1 s4 = Some h1 \<and> dinnerGroup_findFirst r2 s4 = Some h2 \<and>
              attendee_rows u s4 = [a] \<and> dinnerGroupId a = group_id h2 \<and>
              getAttendeesCount (group_id h1) s4 =
                length (filter (\<lambda>a. dinnerGroupId a = group_id h1 \<and> userId a \<noteq> u) (attendees s)) \<and>
              getAttendeesCount (group_id h2) s4 =
                Suc (length (filter (\<lambda>a. dinnerGroupId a = group_id h2 \<and> userId a \<noteq> u)
                  (attendees s)))))"
  using joinDinnerGroup_two_joins [OF ok one u, of g1 g2]
    dashboard_two_joins [OF ok one u, of r1 r2]
  by blast

theorem join_twice_counts_witness:
  "db_constraints demo_db \<and> one_row_per_user demo_db \<and> ''y'' \<in> set (users demo_db) \<and>
   \<lparr>group_id = 0, restaurantId = ''A'', group_notes = Some []\<rparr> \<in> set (dinnerGroups demo_db) \<and>
   \<lparr>group_id = 2, restaurantId = ''B'', group_notes = None\<rparr> \<in> set (dinnerGroups demo_db) \<and>
   (\<exists>a1 s1 a2 s2.
      joinDinnerGroup ''y'' 0 demo_db = (Inr a1, s1) \<and>
      joinDinnerGroup ''y'' 2 s1 = (Inr a2, s2) \<and>
      filter (\<lambda>a. userId a = ''y'' \<and> dinnerGroupId a = 0) (attendees s2) = [] \<and>
      getAttendeesCount 0 s2 = 1 \<and>
      filter (\<lambda>a. userId a = ''y'' \<and> dinnerGroupId a = 2) (attendees s2) = [a2] \<and>
      getAttendeesCount 2 s2 = 1) \<and>
   ''A'' \<in> set (map restaurant_id (restaurants demo_db)) \<and>
   ''C'' \<in> set (map restaurant_id (restaurants demo_db)) \<and>
   (\<exists>s2 s4 h1 h2 a.
      dashboard_action ''y'' (Some ''join-dinner'') (Some ''A'') demo_db = (Inr Success, s2) \<and>
      dashboard_action ''y'' (Some ''join-dinner'') (Some ''C'') s2 = (Inr Success, s4) \<and>
      dinnerGroup_findFirst ''A'' s4 = Some h1 \<and> dinnerGroup_findFirst ''C'' s4 = Some h2 \<and>
      attendee_rows ''y'' s4 = [a] \<and> dinnerGroupId a = group_id h2 \<and>
      getAttendeesCount (group_id h1) s4 =
        length (filter (\<lambda>a. dinnerGroupId a = group_id h1 \<and> userId a \<noteq> ''y'') (attendees demo_db)) \<and>
      getAttendeesCount (group_id h2) s4 =
        Suc (length (filter (\<lambda>a. dinnerGroupId a = group_id h2 \<and> userId a \<noteq> ''y'')
          (attendees demo_db))))"
proof -
  have u: "''y'' \<in> set (users demo_db)" by (simp add: demo_db_def)
  have g1: "\<lparr>group_id = 0, restaurantId = ''A'', group_notes = Some []\<rparr> \<in> set (dinnerGroups demo_db)"
    by (simp add: demo_db_def)
  have g2: "\<lparr>group_id = 2, restaurantId = ''B'', group_notes = None\<rparr> \<in> set (dinnerGroups demo_db)"
    by (simp add: demo_db_def)
  have c1: "length (filter (\<lambda>a. dinnerGroupId a = 0 \<and> userId a \<noteq> ''y'') (attendees demo_db)) = 1"
    by (simp add: demo_db_def)
  have c2: "length (filter (\<lambda>a. dinnerGroupId a = 2 \<and> userId a \<noteq> ''y'') (attendees demo_db)) = 0"
    by (simp add: demo_db_def)
  have r1: "''A'' \<in> set (map restaurant_id (restaurants demo_db))"
    by (simp add: demo_db_def demo_restaurant_def)
  have r2: "''C'' \<in> set (map restaurant_id (restaurants demo_db))"
    by (simp add: demo_db_def demo_restaurant_def)
  note inst = join_twice_counts [OF demo_db_constraints demo_db_one_row u,
      of "\<lparr>group_id = 0, restaurantId = ''A'', group_notes = Some []\<rparr>"
         "\<lparr>group_id = 2, restaurantId = ''B'', group_notes = None\<rparr>" "''A''" "''C''"]
  have first: "\<exists>a1 s1 a2 s2.
      joinDinnerGroup ''y'' 0 demo_db = (Inr a1, s1) \<and>
      joinDinnerGroup ''y'' 2 s1 = (Inr a2, s2) \<and>
      filter (\<lambda>a. userId a = ''y'' \<and> dinnerGroupId a = 0) (attendees s2) = [] \<and>
      getAttendeesCount 0 s2 = 1 \<and>
      filter (\<lambda>a. userId a = ''y'' \<and> dinnerGroupId a = 2) (attendees s2) = [a2] \<and>
      getAttendeesCount 2 s2 = 1"
    using inst g1 g2 c1 c2 by simp
  have second: "\<exists>s2 s4 h1 h2 a.
      dashboard_action ''y'' (Some ''join-dinner'') (Some ''A'') demo_db = (Inr Success, s2) \<and>
      dashboard_action ''y'' (Some ''join-dinner'') (Some ''C'') s2 = (Inr Success, s4) \<and>
      dinnerGroup_findFirst ''A'' s4 = Some h1 \<and> dinnerGroup_findFirst ''C'' s4 = Some h2 \<and>
      attendee_rows ''y'' s4 = [a] \<and> dinnerGroupId a = group_id h2 \<and>
      getAttendeesCount (group_id h1) s4 =
        length (filter (\<lambda>a. dinnerGroupId a = group_id h1 \<and> userId a \<noteq> ''y'') (attendees demo_db)) \<and>
      getAttendeesCount (group_id h2) s4 =
        Suc (length (filter (\<lambda>a. dinnerGroupId a = group_id h2 \<and> userId a \<noteq> ''y'')
          (attendees demo_db)))"
    using inst r1 r2 by simp
  show ?thesis
    using demo_db_constraints demo_db_one_row u g1 g2 r1 r2 first second by blast
qed

text \<open>
  Claim C4. \<^verbatim>\<open>leaveDinnerGroup\<close> never throws on a state that satisfies the storage
  constraints and has at most one row for each user. It returns a row, and the route
  answers \<^verbatim>\<open>success: true\<close>, exactly when the user had a row; the state afterwards is
  the state before without the user's row (the same state when there was none). A
  second call right after changes nothing and is answered \<^verbatim>\<open>success: false\<close>.
\<close>

theorem leave_reports_removal:
  assumes ok: "db_constraints s" and one: "one_row_per_user s"
  shows "\<exists>r s'. leaveDinnerGroup u s = (Inr r, s') \<and>
           attendee_action u Leave s = (Inr (LeaveAnswer (r \<noteq> None)), s') \<and>
           (r \<noteq> None \<longleftrightarrow> attendee_rows u s \<noteq> []) \<and>
           s' = s\<lparr>attendees := filter (\<lambda>a. userId a \<noteq> u) (attendees s)\<rparr> \<and>
           leaveDinnerGroup u s' = (Inr None, s') \<and>
           attendee_action u Leave s' = (Inr (LeaveAnswer False), s')"
proof (cases "attendee_findFirst u s")
  case None
  then have "leaveDinnerGroup u s = (Inr None, s)"
    by (simp add: leaveDinnerGroup_def)
  moreover have "s = s\<lparr>attendees := filter (\<lambda>a. userId a \<noteq> u) (attendees s)\<rparr>"
    using None by (simp add: no_row_filter)
  moreover have "attendee_rows u s = []"
    using None by (simp add: rows_none)
  ultimately show ?thesis
    by (simp add: attendee_action_def)
next
  case (Some a)
  let ?s' = "s\<lparr>attendees := filter (\<lambda>b. userId b \<noteq> u) (attendees s)\<rparr>"
  have "attendee_delete (attendee_id a) s = (Inr a, ?s')"
    using ok one Some by (rule attendee_delete_first_row)
  with Some have l: "leaveDinnerGroup u s = (Inr (Some a), ?s')"
    by (simp add: leaveDinnerGroup_def)
  have again: "leaveDinnerGroup u ?s' = (Inr None, ?s')"
    by (simp add: leaveDinnerGroup_def findFirst_after_removal)
  have "attendee_rows u s \<noteq> []"
    using Some by (simp add: rows_none [symmetric])
  with l again show ?thesis
    by (simp add: attendee_action_def)
qed

theorem leave_reports_removal_witness:
  "db_constraints demo_db \<and> one_row_per_user demo_db \<and>
   (\<exists>r s'. leaveDinnerGroup ''x'' demo_db = (Inr r, s') \<and>
      attendee_action ''x'' Leave demo_db = (Inr (LeaveAnswer True), s') \<and>
      attendees s' = [] \<and>
      attendee_action ''x'' Leave s' = (Inr (LeaveAnswer False), s'))"
proof -
  have rows: "attendee_rows ''x'' demo_db \<noteq> []"
    by (simp add: attendee_rows_def demo_db_def)
  have gone: "filter (\<lambda>a. userId a \<noteq> ''x'') (attendees demo_db) = []"
    by (simp add: demo_db_def)
  show ?thesis
    using demo_db_constraints demo_db_one_row rows gone
      leave_reports_removal [OF demo_db_constraints demo_db_one_row, of "''x''"]
    by auto
qed

text \<open>
  Claim C5. Let a restaurant have a row and no group. After the dashboard's join for
  it, followed by any sequence of further dashboard joins (by any users, for this or
  any other restaurant), the restaurant has exactly one group, the one the first join
  created; and the lookup a further join for it would start with finds that group
  and writes nothing.
\<close>

theorem first_join_creates_the_group:
  assumes r: "r \<in> set (map restaurant_id (restaurants s))" and ne: "r \<noteq> []"
    and none: "dinnerGroup_findFirst r s = None"
  shows "filter (\<lambda>h. restaurantId h = r) (dinnerGroups (fold dashboard_join ((u, r) # reqs) s)) =
           [\<lparr>group_id = nextId s, restaurantId = r, group_notes = Some []\<rparr>] \<and>
         dashboard_findOrCreateGroup r (fold dashboard_join ((u, r) # reqs) s) =
           (Inr \<lparr>group_id = nextId s, restaurantId = r, group_notes = Some []\<rparr>,
            fold dashboard_join ((u, r) # reqs) s)"
proof -
  let ?g = "\<lparr>group_id = nextId s, restaurantId = r, group_notes = Some []\<rparr>"
  let ?t = "fold dashboard_join ((u, r) # reqs) s"
  have "filter (\<lambda>h. restaurantId h = r) (dinnerGroups s) = []"
    using none by (simp add: findFirst_group_filter)
  then have "filter (\<lambda>h. restaurantId h = r) (dinnerGroups (dashboard_join (u, r) s)) = [?g]"
    using r ne none
    by (simp add: dinnerGroups_dashboard_join dashboard_findOrCreateGroup_def
        dinnerGroup_create_def Let_def)
  then have one: "filter (\<lambda>h. restaurantId h = r) (dinnerGroups ?t) = [?g]"
    using single_group_kept_fold [of r "dashboard_join (u, r) s" ?g reqs] by simp
  then have "dinnerGroup_findFirst r ?t = Some ?g"
    by (rule findFirst_group_single)
  then have "dashboard_findOrCreateGroup r ?t = (Inr ?g, ?t)"
    by (simp add: dashboard_findOrCreateGroup_def)
  with one show ?thesis by simp
qed

theorem first_join_creates_the_group_witness:
  "''C'' \<in> set (map restaurant_id (restaurants demo_db)) \<and>
   dinnerGroup_findFirst ''C'' demo_db = None \<and>
   filter (\<lambda>h. restaurantId h = ''C'')
     (dinnerGroups (fold dashboard_join [(''x'', ''C''), (''y'', ''C''), (''x'', ''A''), (''x'', ''C'')]
        demo_db)) =
     [\<lparr>group_id = 3, restaurantId = ''C'', group_notes = Some []\<rparr>]"
proof -
  have r: "''C'' \<in> set (map restaurant_id (restaurants demo_db))"
    by (simp add: demo_db_def demo_restaurant_def)
  have ne: "''C'' \<noteq> []" by simp
  have none: "dinnerGroup_findFirst ''C'' demo_db = None"
    by (simp add: dinnerGroup_findFirst_def demo_db_def)
  have n: "nextId demo_db = 3" by (simp add: demo_db_def)
  show ?thesis
    using r none n
      first_join_creates_the_group [OF r ne none, of "''x''" "[(''y'', ''C''), (''x'', ''A''), (''x'', ''C'')]"]
    by simp
qed

text \<open>
  Claim C6, at a state where it fails. In \<open>demo_db\<close> the user \<open>x\<close> attends the group
  of restaurant \<open>A\<close>, and \<^verbatim>\<open>getCurrentDinnerGroup\<close> says so. The card the loader
  returns for \<open>A\<close> carries the attendee count 1 and the flag \<^verbatim>\<open>userIsAttending\<close>
  false: the loader takes no user identity, and \<^verbatim>\<open>getRestaurantsWithAttendeeCount\<close>
  sets the flag to the constant \<^verbatim>\<open>false\<close> (lemma \<open>loader_never_attending\<close>).
\<close>

theorem attending_flag_is_constant:
  "map_option (\<lambda>c. restaurant_id (cur_restaurant c)) (getCurrentDinnerGroup ''x'' demo_db) = Some ''A'' \<and>
   map (\<lambda>v. (restaurant_id v, attendeeCount v, userIsAttending v))
     (fst (loader_restaurants ''k'' \<lparr>loc_lat = 0, loc_lng = 0\<rparr> (\<lambda>a b c d. 0)
        [demo_place ''A'' True] demo_db)) = [(''A'', 1, False)]"
  by (simp add: getCurrentDinnerGroup_def attendee_findFirst_def demo_db_def demo_restaurant_def
      loader_restaurants_def process_place_def place_location_def demo_place_def Let_def
      List.map_filter_simps enumerate_eq_zip or_else_def or_null_def truthy_def first_type_def
      restaurant_upsert_def getRestaurantsWithAttendeeCount_def enhance_def
      restaurant_card.defs restaurant_view.defs restaurant.defs restaurantData.defs Math_round_def)

text \<open>
  Claim C7 as stated fails in the create action of the restaurant route: for a place
  with neither price level nor rating the row it builds has price level 1, the lowest
  tier, and rating 0.
\<close>

theorem create_defaults_counterexample:
  "createRestaurant_data ''k'' (demo_place ''A'' True) =
     Some \<lparr>name = ''Diner'', address = ''1 Main St'', cuisineType = ''restaurant'',
           priceLevel = 1, rating = 0, lat = 0, lng = 0, photoUrl = None, mapsUrl = None,
           websiteUrl = None\<rparr> \<and>
   map_option (\<lambda>d. mid_tier (priceLevel d)) (createRestaurant_data ''k'' (demo_place ''A'' True)) =
     Some False"
  by (simp add: createRestaurant_data_def demo_place_def place_location_def first_type_def
      or_else_def or_null_def mid_tier_def)

text \<open>
  Claim C7, amended. In the aggregation loader an absent price level becomes 2, a
  mid-tier level, and an absent rating becomes 3, on the card returned and on the row
  upserted alike. In the create action of the restaurant route an absent or zero price
  level becomes 1 and an absent rating becomes 0, on the row that is stored. The fields
  \<open>priceLevel\<close> and \<open>rating\<close> of a row or card are numbers, never \<^verbatim>\<open>null\<close>.
\<close>

theorem price_rating_defaults:
  "map priceLevel (fst (loader_restaurants k origin calc ps s)) =
     map (\<lambda>p. case price_level p of Some n \<Rightarrow> n | None \<Rightarrow> 2)
       (filter (\<lambda>p. place_location p \<noteq> None) ps) \<and>
   list_all mid_tier
     (map priceLevel (fst (loader_restaurants k origin calc
        (map (\<lambda>p. p\<lparr>price_level := None\<rparr>) ps) s))) \<and>
   map rating (fst (loader_restaurants k origin calc ps s)) =
     map (\<lambda>p. case place_rating p of Some x \<Rightarrow> x | None \<Rightarrow> 3)
       (filter (\<lambda>p. place_location p \<noteq> None) ps) \<and>
   (process_place k origin calc i p = Some (c, Some row) \<longrightarrow>
      priceLevel row = priceLevel c \<and> rating row = rating c) \<and>
   (restaurant_action_create k (Some p) s = (Inr r, s') \<longrightarrow>
      priceLevel r = (case price_level p of None \<Rightarrow> 1 | Some l \<Rightarrow> if l = 0 then 1 else l) \<and>
      rating r = (case place_rating p of None \<Rightarrow> 0 | Some x \<Rightarrow> x) \<and>
      r \<in> set (restaurants s'))"
proof (intro conjI impI)
  show pl: "map priceLevel (fst (loader_restaurants k origin calc ps s)) =
     map (\<lambda>p. case price_level p of Some n \<Rightarrow> n | None \<Rightarrow> 2)
       (filter (\<lambda>p. place_location p \<noteq> None) ps)" for ps
    by (rule views_project [where h = priceLevel])
      (auto simp: process_place_def Let_def enhance_keeps split: option.splits)
  show "list_all mid_tier
     (map priceLevel (fst (loader_restaurants k origin calc
        (map (\<lambda>p. p\<lparr>price_level := None\<rparr>) ps) s)))"
    unfolding pl by (auto simp: list_all_iff mid_tier_def)
  show "map rating (fst (loader_restaurants k origin calc ps s)) =
     map (\<lambda>p. case place_rating p of Some x \<Rightarrow> x | None \<Rightarrow> 3)
       (filter (\<lambda>p. place_location p \<noteq> None) ps)"
    by (rule views_project [where h = rating])
      (auto simp: process_place_def Let_def enhance_keeps split: option.splits)
next
  assume "process_place k origin calc i p = Some (c, Some row)"
  then show "priceLevel row = priceLevel c" and "rating row = rating c"
    by (auto simp: process_place_def Let_def split: option.splits if_splits)
next
  assume a: "restaurant_action_create k (Some p) s = (Inr r, s')"
  then obtain d where d: "createRestaurant_data k p = Some d"
    and c: "restaurant_create d s = (Inr r, s')"
    by (auto simp: restaurant_action_create_def createRestaurant_def
        split: option.splits prod.splits sum.splits)
  from d have "priceLevel d = (case price_level p of None \<Rightarrow> 1 | Some l \<Rightarrow> if l = 0 then 1 else l)"
    and "rating d = (case place_rating p of None \<Rightarrow> 0 | Some x \<Rightarrow> x)"
    by (auto simp: createRestaurant_data_def split: option.splits)
  with restaurant_create_fields [OF c]
  show "priceLevel r = (case price_level p of None \<Rightarrow> 1 | Some l \<Rightarrow> if l = 0 then 1 else l)"
    and "rating r = (case place_rating p of None \<Rightarrow> 0 | Some x \<Rightarrow> x)"
    and "r \<in> set (restaurants s')"
    by simp_all
qed

theorem price_rating_defaults_witness:
  "map priceLevel (fst (loader_restaurants ''k'' \<lparr>loc_lat = 0, loc_lng = 0\<rparr> (\<lambda>a b c d. 0)
      [demo_place ''A'' True, demo_place ''B'' False] demo_db)) = [2] \<and>
   map rating (fst (loader_restaurants ''k'' \<lparr>loc_lat = 0, loc_lng = 0\<rparr> (\<lambda>a b c d. 0)
      [demo_place ''A'' True, demo_place ''B'' False] demo_db)) = [3] \<and>
   (\<exists>c row. process_place ''k'' \<lparr>loc_lat = 0, loc_lng = 0\<rparr> (\<lambda>a b c d. 0) 0 (demo_place ''A'' True) =
        Some (c, Some row) \<and>
      priceLevel row = priceLevel c \<and> rating row = rating c) \<and>
   (\<exists>r s'. restaurant_action_create ''k'' (Some (demo_place ''A'' True)) demo_db = (Inr r, s') \<and>
      priceLevel r = 1 \<and> rating r = 0 \<and> r \<in> set (restaurants s'))"
proof -
  let ?o = "\<lparr>loc_lat = 0, loc_lng = 0\<rparr>"
  let ?f = "\<lambda>(a::real) (b::real) (c::real) (d::real). 0::real"
  let ?ps = "[demo_place ''A'' True, demo_place ''B'' False]"
  have "\<exists>c row. process_place ''k'' ?o ?f 0 (demo_place ''A'' True) = Some (c, Some row)"
    by (simp add: process_place_def demo_place_def place_location_def truthy_def or_null_def Let_def)
  then obtain c row where pp: "process_place ''k'' ?o ?f 0 (demo_place ''A'' True) = Some (c, Some row)"
    by blast
  have "\<exists>r s'. restaurant_action_create ''k'' (Some (demo_place ''A'' True)) demo_db = (Inr r, s')"
    by (simp add: restaurant_action_create_def createRestaurant_data_def createRestaurant_def
        restaurant_create_def demo_place_def place_location_def demo_db_def demo_restaurant_def
        Let_def)
  then obtain r s' where ac: "restaurant_action_create ''k'' (Some (demo_place ''A'' True)) demo_db = (Inr r, s')"
    by blast
  have loc: "filter (\<lambda>p. place_location p \<noteq> None) ?ps = [demo_place ''A'' True]"
    by (simp add: place_location_def demo_place_def)
  have pr: "price_level (demo_place ''A'' True) = None" "place_rating (demo_place ''A'' True) = None"
    by (simp_all add: demo_place_def)
  note inst = price_rating_defaults [of "''k''" ?o ?f ?ps demo_db 0 "demo_place ''A'' True" c row r s']
  show ?thesis
    using pp ac inst [unfolded loc] by (simp add: pr)
qed

text \<open>
  Claim C8. The callback answers \<^verbatim>\<open>null\<close> exactly for the places without geometry
  or location, and nothing in it throws. The cards the loader returns are those of the
  places that have a location, in the order of the search results: their coordinates
  are the locations of these places, their names are these places' names, and there
  are as many cards as such places.
\<close>

theorem missing_geometry_dropped:
  "(process_place k origin calc i p = None \<longleftrightarrow> place_location p = None) \<and>
   map (\<lambda>v. \<lparr>loc_lat = lat v, loc_lng = lng v\<rparr>) (fst (loader_restaurants k origin calc ps s)) =
     List.map_filter place_location ps \<and>
   map name (fst (loader_restaurants k origin calc ps s)) =
     map (\<lambda>p. or_else (place_name p) ''Unknown Restaurant'')
       (filter (\<lambda>p. place_location p \<noteq> None) ps) \<and>
   length (fst (loader_restaurants k origin calc ps s)) =
     length (filter (\<lambda>p. place_location p \<noteq> None) ps)"
proof -
  have loc: "map (\<lambda>v. \<lparr>loc_lat = lat v, loc_lng = lng v\<rparr>) (fst (loader_restaurants k origin calc ps s)) =
      map (\<lambda>p. the (place_location p)) (filter (\<lambda>p. place_location p \<noteq> None) ps)"
    by (rule views_project [where h = "\<lambda>c. \<lparr>loc_lat = lat c, loc_lng = lng c\<rparr>"])
      (auto simp: process_place_def Let_def enhance_keeps split: option.splits)
  have mf: "map (\<lambda>p. the (f p)) (filter (\<lambda>p. f p \<noteq> None) xs) = List.map_filter f xs"
    for f :: "place \<Rightarrow> latLng option" and xs
    by (induction xs) (auto simp: List.map_filter_simps)
  have nm: "map name (fst (loader_restaurants k origin calc ps s)) =
     map (\<lambda>p. or_else (place_name p) ''Unknown Restaurant'')
       (filter (\<lambda>p. place_location p \<noteq> None) ps)"
    by (rule views_project [where h = name])
      (auto simp: process_place_def Let_def enhance_keeps split: option.splits)
  have loc': "map (\<lambda>v. \<lparr>loc_lat = lat v, loc_lng = lng v\<rparr>) (fst (loader_restaurants k origin calc ps s)) =
      List.map_filter place_location ps"
    using loc mf [of place_location ps] by (simp only:)
  have "length (map name (fst (loader_restaurants k origin calc ps s))) =
     length (filter (\<lambda>p. place_location p \<noteq> None) ps)"
    unfolding nm by (simp only: length_map)
  then have len: "length (fst (loader_restaurants k origin calc ps s)) =
     length (filter (\<lambda>p. place_location p \<noteq> None) ps)"
    by (simp only: length_map)
  show ?thesis
    by (intro conjI) (rule process_place_None loc' nm len)+
qed

text \<open>
  Claim C9 as stated fails for the caching search operation: when the request fails it
  throws the error again, and its route answers with status 400.
\<close>

theorem cached_search_counterexample:
  "searchRestaurants_cached None NetworkError = (Inl FetchFailed, None) \<and>
   restaurant_route_search None NetworkError = Inl (Status 400)"
  by (simp add: searchRestaurants_cached_def restaurant_route_search_def)

text \<open>
  Claim C9, amended. When the call to the place provider fails, the search operation
  the aggregation loader uses returns the empty list, and so the loader returns no
  cards; the caching search operation throws, and its route answers with status 400.
\<close>

theorem failed_search_outcomes:
  "request_fails outcome \<longrightarrow>
     searchRestaurants minRating outcome = [] \<and>
     fst (loader k origin calc minRating outcome s) = [] \<and>
     (\<exists>e. searchRestaurants_cached None outcome = (Inl e, None)) \<and>
     restaurant_route_search None outcome = Inl (Status 400)"
proof
  assume f: "request_fails outcome"
  then have empty: "searchRestaurants minRating outcome = []"
    by (auto simp: request_fails_def searchRestaurants_def split: fetch_outcome.splits)
  have thrown: "\<exists>e. searchRestaurants_cached None outcome = (Inl e, None)"
    using f by (auto simp: request_fails_def searchRestaurants_cached_def
        split: fetch_outcome.splits)
  then have "restaurant_route_search None outcome = Inl (Status 400)"
    by (auto simp: restaurant_route_search_def)
  moreover have "fst (loader k origin calc minRating outcome s) = []"
    by (simp add: loader_def empty loader_restaurants_def List.map_filter_simps)
  ultimately show "searchRestaurants minRating outcome = [] \<and>
     fst (loader k origin calc minRating outcome s) = [] \<and>
     (\<exists>e. searchRestaurants_cached None outcome = (Inl e, None)) \<and>
     restaurant_route_search None outcome = Inl (Status 400)"
    using empty thrown by simp
qed

theorem failed_search_outcomes_witness:
  "request_fails (Response False Unparsable) \<and>
   searchRestaurants (Some 4) (Response False Unparsable) = [] \<and>
   fst (loader ''k'' \<lparr>loc_lat = 0, loc_lng = 0\<rparr> (\<lambda>a b c d. 0) (Some 4)
      (Response False Unparsable) demo_db) = [] \<and>
   (\<exists>e. searchRestaurants_cached None (Response False Unparsable) = (Inl e, None)) \<and>
   restaurant_route_search None (Response False Unparsable) = Inl (Status 400)"
proof -
  have f: "request_fails (Response False Unparsable)"
    by (simp add: request_fails_def)
  show ?thesis
    using f failed_search_outcomes [of "Response False Unparsable" "Some 4" "''k''"
        "\<lparr>loc_lat = 0, loc_lng = 0\<rparr>" "\<lambda>a b c d. 0" demo_db]
    by blast
qed



end
